theory Spec2Isabelle
  imports Main "HOL-Library.Multiset"
begin

section \<open>JavaScript values used by the formatter plugin\<close>

text \<open>
  The TypeScript sources of ts-pretty (\<^verbatim>\<open>src/cust-compiler-host.ts\<close>,
  \<^verbatim>\<open>src/index.ts\<close>) are embedded function by function. JavaScript strings are
  sequences of code units and are modelled as \<^typ>\<open>string\<close>; a value that may be
  \<^verbatim>\<open>undefined\<close> is an \<^typ>\<open>'a option\<close> with \<^term>\<open>None\<close> for
  \<^verbatim>\<open>undefined\<close>. Version counters and offsets are JavaScript numbers that only
  ever hold small non-negative integers here and are modelled as \<^typ>\<open>nat\<close>
  (the loss of precision of a double beyond \<open>2^53\<close> is outside the model).
\<close>

datatype error =
  TypeError
  | ENOENT string
  | SyntaxError string
  | PrintError nat

text \<open>
  \<^verbatim>\<open>String(v)\<close> for a non-negative integer \<open>v\<close>: its decimal numeral. The
  digit looked up is always below 10.
\<close>

definition digit_char :: "nat \<Rightarrow> char" where
  "digit_char d = ''0123456789'' ! d"

fun String_nat :: "nat \<Rightarrow> string" where
  "String_nat n =
     (if n < 10 then [digit_char n]
      else String_nat (n div 10) @ [digit_char (n mod 10)])"

declare String_nat.simps [simp del]

section \<open>The in-memory compiler host (\<^verbatim>\<open>CustCompilerHost\<close>)\<close>

text \<open>
  \<^verbatim>\<open>ts.createSourceFile(fileName, text, languageVersion)\<close> belongs to the
  TypeScript library. On a string it returns a source file, kept here as the record of the
  arguments; on \<^verbatim>\<open>undefined\<close> in place of the text it throws a
  \<^verbatim>\<open>TypeError\<close>.
\<close>

record SourceFile =
  sf_fileName :: string
  sf_text :: string
  languageVersion :: nat

definition parseSourceFile :: "string \<Rightarrow> string \<Rightarrow> nat \<Rightarrow> SourceFile" where
  "parseSourceFile fileName text lv =
     \<lparr>sf_fileName = fileName, sf_text = text, languageVersion = lv\<rparr>"

definition createSourceFile :: "string \<Rightarrow> string option \<Rightarrow> nat \<Rightarrow> error + SourceFile" where
  "createSourceFile fileName text lv =
     (case text of
        None \<Rightarrow> Inl TypeError
      | Some t \<Rightarrow> Inr (parseSourceFile fileName t lv))"

text \<open>
  The three \<^verbatim>\<open>Map\<close> fields of the host. A \<^verbatim>\<open>Map\<close> entry of
  \<^verbatim>\<open>files\<close> holds whatever was stored, which after
  \<^verbatim>\<open>applyTextChanges\<close> with no edits on a missing file is \<^verbatim>\<open>undefined\<close>;
  hence the values are \<^typ>\<open>string option\<close>.
\<close>

record host =
  files :: "string \<rightharpoonup> string option"
  fileVersions :: "string \<rightharpoonup> nat"
  sourceFiles :: "string \<rightharpoonup> SourceFile"

definition new_host :: host where
  "new_host = \<lparr>files = Map.empty, fileVersions = Map.empty, sourceFiles = Map.empty\<rparr>"

text \<open>
  The backing file system behind \<^verbatim>\<open>ts.sys.readFile\<close> and
  \<^verbatim>\<open>fs.readFileSync\<close>: the files on disk, and a log of every path that was read
  from it (most recent first), so that the number of backing reads can be counted.
\<close>

record sys =
  disk :: "string \<rightharpoonup> string"
  sysReads :: "string list"

definition sys_readFile :: "string \<Rightarrow> sys \<Rightarrow> string option \<times> sys" where
  "sys_readFile fileName s = (disk s fileName, s\<lparr>sysReads := fileName # sysReads s\<rparr>)"

text \<open>JavaScript truthiness of a \<^verbatim>\<open>string | undefined\<close>.\<close>

fun truthy_text :: "string option \<Rightarrow> bool" where
  "truthy_text None = False"
| "truthy_text (Some s) = (s \<noteq> [])"

definition fileExists :: "string \<Rightarrow> host \<Rightarrow> sys \<Rightarrow> bool" where
  "fileExists fileName h s =
     (if files h fileName \<noteq> None then True else disk s fileName \<noteq> None)"

definition readFile :: "string \<Rightarrow> host \<times> sys \<Rightarrow> string option \<times> host \<times> sys" where
  "readFile fileName hs =
     (case hs of (h, s) \<Rightarrow>
        (case files h fileName of
           Some v \<Rightarrow> (v, h, s)
         | None \<Rightarrow>
             (case sys_readFile fileName s of (content, s') \<Rightarrow>
                if truthy_text content
                then (content, h\<lparr>files := (files h)(fileName \<mapsto> content)\<rparr>, s')
                else (content, h, s'))))"

text \<open>The last two statements of \<^verbatim>\<open>writeFile\<close>: the version counter goes up.\<close>

definition bumpVersion :: "string \<Rightarrow> host \<Rightarrow> host" where
  "bumpVersion fileName h =
     (let newVers = (case fileVersions h fileName of None \<Rightarrow> 1 | Some v \<Rightarrow> v) + 1
      in h\<lparr>fileVersions := (fileVersions h)(fileName \<mapsto> newVers)\<rparr>)"

text \<open>
  \<^verbatim>\<open>writeFile(fileName, text)\<close>. The text is stored first. When a source file is
  cached for the path it is created anew from the text; if that throws, the call ends there
  with the text stored and the version counter as it was. The result is the exception or
  the normal return, together with the host as the call leaves it.
\<close>

definition writeFile :: "string \<Rightarrow> string option \<Rightarrow> host \<Rightarrow> (error + unit) \<times> host" where
  "writeFile fileName text h =
     (let h1 = h\<lparr>files := (files h)(fileName \<mapsto> text)\<rparr>
      in (case sourceFiles h1 fileName of
            Some sf \<Rightarrow>
              (case createSourceFile fileName text (languageVersion sf) of
                 Inl e \<Rightarrow> (Inl e, h1)
               | Inr result \<Rightarrow>
                   (Inr (),
                    bumpVersion fileName
                      (h1\<lparr>sourceFiles := (sourceFiles h1)(fileName \<mapsto> result)\<rparr>)))
          | None \<Rightarrow> (Inr (), bumpVersion fileName h1)))"

definition getScriptVersion :: "string \<Rightarrow> host \<Rightarrow> string" where
  "getScriptVersion fileName h =
     (case fileVersions h fileName of
        Some v \<Rightarrow> String_nat v
      | None \<Rightarrow> ''1'')"

definition getSourceFile :: "string \<Rightarrow> nat \<Rightarrow> host \<times> sys \<Rightarrow> SourceFile option \<times> host \<times> sys" where
  "getSourceFile fileName lv hs =
     (case sourceFiles (fst hs) fileName of
        Some sf \<Rightarrow> (Some sf, hs)
      | None \<Rightarrow>
          (case readFile fileName hs of
             (Some text, h, s) \<Rightarrow>
               (let result = parseSourceFile fileName text lv
                in (Some result, h\<lparr>sourceFiles := (sourceFiles h)(fileName \<mapsto> result)\<rparr>, s))
           | (None, h, s) \<Rightarrow> (None, h, s)))"

text \<open>
  A sequence of calls \<^verbatim>\<open>writeFile(fileName, t)\<close> for the strings \<open>t\<close> of a list,
  in order; an exception ends the sequence.
\<close>

fun writeFiles :: "string \<Rightarrow> string list \<Rightarrow> host \<Rightarrow> (error + unit) \<times> host" where
  "writeFiles fileName [] h = (Inr (), h)"
| "writeFiles fileName (t # texts) h =
     (case writeFile fileName (Some t) h of
        (Inl e, h') \<Rightarrow> (Inl e, h')
      | (Inr u, h') \<Rightarrow> writeFiles fileName texts h')"

text \<open>
  The number that \<^verbatim>\<open>getScriptVersion\<close> prints: the stored counter, or 1 for a
  path without one (the \<^verbatim>\<open>?? 1\<close> of \<^verbatim>\<open>writeFile\<close> and the
  \<^verbatim>\<open>return '1'\<close> of \<^verbatim>\<open>getScriptVersion\<close>).
\<close>

definition scriptVersionNumber :: "string \<Rightarrow> host \<Rightarrow> nat" where
  "scriptVersionNumber fileName h =
     (case fileVersions h fileName of None \<Rightarrow> 1 | Some v \<Rightarrow> v)"

subsection \<open>Text changes and \<^verbatim>\<open>applyTextChanges\<close>\<close>

record TextSpan =
  start :: nat
  span_length :: nat

record TextChange =
  span :: TextSpan
  newText :: string

text \<open>
  \<^verbatim>\<open>Array.prototype.sort(compareFn)\<close> is a stable sort (ECMAScript 2019; the
  package asks for Node.js 14.17 or later): elements that compare equal keep their order.
  Insertion from the right, placing an element before the first one it does not compare
  greater than, computes that unique stable result.
\<close>

fun insort_cmp :: "('a \<Rightarrow> 'a \<Rightarrow> int) \<Rightarrow> 'a \<Rightarrow> 'a list \<Rightarrow> 'a list" where
  "insort_cmp cmp x [] = [x]"
| "insort_cmp cmp x (y # ys) =
     (if cmp x y \<le> 0 then x # y # ys else y # insort_cmp cmp x ys)"

definition array_sort :: "('a \<Rightarrow> 'a \<Rightarrow> int) \<Rightarrow> 'a list \<Rightarrow> 'a list" where
  "array_sort cmp xs = foldr (insort_cmp cmp) xs []"

text \<open>The comparator \<^verbatim>\<open>(a, b) => b.span.start - a.span.start\<close>.\<close>

definition by_start_desc :: "TextChange \<Rightarrow> TextChange \<Rightarrow> int" where
  "by_start_desc a b = int (start (span b)) - int (start (span a))"

text \<open>
  Arrays are mutable objects reached through references, and \<^verbatim>\<open>sort\<close> works in
  place. The store of arrays maps a reference to the array's current elements;
  \<^verbatim>\<open>next_ref\<close> is the next unused reference. The elements themselves are only
  read by the code, so an array holds them as values.
\<close>

record arrays =
  cells :: "nat \<rightharpoonup> TextChange list"
  next_ref :: nat

text \<open>\<^verbatim>\<open>xs.slice(0)\<close>: a new array with the same elements.\<close>

definition array_slice0 :: "TextChange list \<Rightarrow> arrays \<Rightarrow> nat \<times> arrays" where
  "array_slice0 xs ar =
     (next_ref ar, ar\<lparr>cells := (cells ar)(next_ref ar \<mapsto> xs), next_ref := Suc (next_ref ar)\<rparr>)"

text \<open>\<^verbatim>\<open>r.sort(cmp)\<close>: the array behind reference \<open>r\<close> is reordered in place.\<close>

definition array_sort_inplace :: "(TextChange \<Rightarrow> TextChange \<Rightarrow> int) \<Rightarrow> nat \<Rightarrow> arrays \<Rightarrow> arrays" where
  "array_sort_inplace cmp r ar =
     (case cells ar r of
        None \<Rightarrow> ar
      | Some xs \<Rightarrow> ar\<lparr>cells := (cells ar)(r \<mapsto> array_sort cmp xs)\<rparr>)"

text \<open>
  One iteration of the \<^verbatim>\<open>forEach\<close> body:
  \<^verbatim>\<open>newText.slice(0, start) + textChange.newText + newText.slice(start + length)\<close>.
  \<^verbatim>\<open>slice\<close> clamps its bounds to the string, as \<^const>\<open>take\<close> and
  \<^const>\<open>drop\<close> do.
\<close>

definition spliceChange :: "TextChange \<Rightarrow> string \<Rightarrow> string" where
  "spliceChange textChange t =
     take (start (span textChange)) t @ newText textChange
       @ drop (start (span textChange) + span_length (span textChange)) t"

text \<open>
  The whole \<^verbatim>\<open>forEach\<close>. When \<^verbatim>\<open>readFile\<close> gave \<^verbatim>\<open>undefined\<close>, the
  first iteration throws a \<^verbatim>\<open>TypeError\<close> on \<^verbatim>\<open>newText.slice\<close>; with no
  iteration at all \<^verbatim>\<open>undefined\<close> is passed on to \<^verbatim>\<open>writeFile\<close>.
\<close>

fun forEach_splice :: "TextChange list \<Rightarrow> string option \<Rightarrow> error + string option" where
  "forEach_splice cs (Some t) = Inr (Some (fold spliceChange cs t))"
| "forEach_splice [] None = Inr None"
| "forEach_splice (c # cs) None = Inl TypeError"

text \<open>
  \<^verbatim>\<open>applyTextChanges(fileName, textChanges)\<close>, with \<^verbatim>\<open>textChanges\<close> given by
  its reference. The result is the returned text or the exception thrown (by the loop or
  by \<^verbatim>\<open>writeFile\<close>), together with the host, the backing file system and the store
  of arrays as the call leaves them.
\<close>

definition applyTextChanges ::
  "string \<Rightarrow> nat \<Rightarrow> host \<times> sys \<times> arrays \<Rightarrow> (error + string option) \<times> host \<times> sys \<times> arrays" where
  "applyTextChanges fileName textChanges st =
     (case st of (h, s, ar) \<Rightarrow>
        (case readFile fileName (h, s) of (text0, h1, s1) \<Rightarrow>
           (case cells ar textChanges of
              None \<Rightarrow> (Inl TypeError, h1, s1, ar)
            | Some xs \<Rightarrow>
                (case array_slice0 xs ar of (copy, ar1) \<Rightarrow>
                   (let ar2 = array_sort_inplace by_start_desc copy ar1;
                        sorted = (case cells ar2 copy of Some ys \<Rightarrow> ys | None \<Rightarrow> [])
                    in (case forEach_splice sorted text0 of
                          Inl e \<Rightarrow> (Inl e, h1, s1, ar2)
                        | Inr text' \<Rightarrow>
                            (case writeFile fileName text' h1 of
                               (Inl e, h2) \<Rightarrow> (Inl e, h2, s1, ar2)
                             | (Inr u, h2) \<Rightarrow> (Inr text', h2, s1, ar2))))))))"

text \<open>
  The reference semantics of a batch: every edit is spliced at its own offsets of the
  original string. The edits are taken in ascending order of their start; \<open>pos\<close> is the
  offset of the original up to which the output has been produced.
\<close>

fun splice_from :: "nat \<Rightarrow> string \<Rightarrow> TextChange list \<Rightarrow> string" where
  "splice_from pos S [] = drop pos S"
| "splice_from pos S (c # cs) =
     take (start (span c) - pos) (drop pos S) @ newText c
       @ splice_from (start (span c) + span_length (span c)) S cs"

definition splice_original :: "string \<Rightarrow> TextChange list \<Rightarrow> string" where
  "splice_original S cs = splice_from 0 S (sort_key (\<lambda>c. start (span c)) cs)"

text \<open>
  Two edits do not overlap when the half-open ranges \<open>[start, start + length)\<close> they
  replace have no offset in common; a batch is non-overlapping when no two of its edits
  overlap, and within bounds when every range ends inside the string.
\<close>

definition ranges_disjoint :: "TextChange \<Rightarrow> TextChange \<Rightarrow> bool" where
  "ranges_disjoint a b =
     (start (span a) + span_length (span a) \<le> start (span b)
      \<or> start (span b) + span_length (span b) \<le> start (span a))"

fun non_overlapping :: "TextChange list \<Rightarrow> bool" where
  "non_overlapping [] = True"
| "non_overlapping (c # cs) = (list_all (ranges_disjoint c) cs \<and> non_overlapping cs)"

definition within_bounds :: "string \<Rightarrow> TextChange list \<Rightarrow> bool" where
  "within_bounds S cs =
     list_all (\<lambda>c. start (span c) + span_length (span c) \<le> length S) cs"

text \<open>
  A store of arrays is well formed when every reference in use is below
  \<^const>\<open>next_ref\<close>, so that a new array never takes the place of an existing one.
\<close>

definition wf_arrays :: "arrays \<Rightarrow> bool" where
  "wf_arrays ar = (\<forall>r. cells ar r \<noteq> None \<longrightarrow> r < next_ref ar)"

definition mkChange :: "nat \<Rightarrow> nat \<Rightarrow> string \<Rightarrow> TextChange" where
  "mkChange s l r = \<lparr>span = \<lparr>start = s, span_length = l\<rparr>, newText = r\<rparr>"

text \<open>
  A list of edits in ascending order in which every edit starts at or after \<open>pos\<close>,
  ends inside a string of length \<open>n\<close>, and ends at or before the start of the next.
\<close>

fun chained :: "nat \<Rightarrow> nat \<Rightarrow> TextChange list \<Rightarrow> bool" where
  "chained pos n [] = True"
| "chained pos n (c # cs) =
     (pos \<le> start (span c) \<and> start (span c) + span_length (span c) \<le> n
      \<and> chained (start (span c) + span_length (span c)) n cs)"

section \<open>Format settings (\<^verbatim>\<open>TypeScriptParser.makeFormatCodeSettings\<close>)\<close>

text \<open>
  The options bag and the settings object are dynamically typed. A value is
  \<^verbatim>\<open>null\<close>, a boolean, a number (integers suffice for the settings), a string or
  an object. An object is the list of its own properties in JavaScript's property order:
  the keys that are array indices first, in ascending numeric order, then the other keys in
  the order in which they were created.
\<close>

datatype json =
  JNull
  | JBool bool
  | JNum int
  | JStr string
  | JObj "(string \<times> json) list"

type_synonym object = "(string \<times> json) list"

fun truthy :: "json \<Rightarrow> bool" where
  "truthy JNull = False"
| "truthy (JBool b) = b"
| "truthy (JNum n) = (n \<noteq> 0)"
| "truthy (JStr s) = (s \<noteq> [])"
| "truthy (JObj ps) = True"

fun truthy_opt :: "json option \<Rightarrow> bool" where
  "truthy_opt None = False"
| "truthy_opt (Some v) = truthy v"

text \<open>
  A key is an array index when it is the decimal numeral of a number below
  \<open>2^32 - 1\<close>.
\<close>

definition digit_of :: "char \<Rightarrow> nat option" where
  "digit_of c = map_of (zip ''0123456789'' [0, 1, 2, 3, 4, 5, 6, 7, 8, 9]) c"

fun parse_digits :: "nat \<Rightarrow> string \<Rightarrow> nat option" where
  "parse_digits acc [] = Some acc"
| "parse_digits acc (c # cs) =
     (case digit_of c of
        None \<Rightarrow> None
      | Some d \<Rightarrow> parse_digits (10 * acc + d) cs)"

definition array_index :: "string \<Rightarrow> nat option" where
  "array_index key =
     (case parse_digits 0 key of
        None \<Rightarrow> None
      | Some n \<Rightarrow> if String_nat n = key \<and> n < 4294967295 then Some n else None)"

text \<open>
  Property read, the test for an own property, assignment (\<^verbatim>\<open>o[k] = v\<close>) and
  \<^verbatim>\<open>delete o[k]\<close>. An assignment to an existing key keeps the key's place; a new
  array index goes to its place among the array indices, and any other new key goes to the
  end.
\<close>

definition get_prop :: "object \<Rightarrow> string \<Rightarrow> json option" where
  "get_prop obj key = map_of obj key"

definition has_prop :: "object \<Rightarrow> string \<Rightarrow> bool" where
  "has_prop obj key = (key \<in> set (map fst obj))"

fun replace_prop :: "string \<Rightarrow> json \<Rightarrow> object \<Rightarrow> object" where
  "replace_prop key v [] = []"
| "replace_prop key v (p # ps) =
     (if fst p = key then (key, v) # ps else p # replace_prop key v ps)"

fun insert_index :: "nat \<Rightarrow> string \<Rightarrow> json \<Rightarrow> object \<Rightarrow> object" where
  "insert_index n key v [] = [(key, v)]"
| "insert_index n key v (p # ps) =
     (case array_index (fst p) of
        None \<Rightarrow> (key, v) # p # ps
      | Some m \<Rightarrow> if m < n then p # insert_index n key v ps else (key, v) # p # ps)"

definition set_prop :: "string \<Rightarrow> json \<Rightarrow> object \<Rightarrow> object" where
  "set_prop key v obj =
     (if has_prop obj key then replace_prop key v obj
      else (case array_index key of
              None \<Rightarrow> obj @ [(key, v)]
            | Some n \<Rightarrow> insert_index n key v obj))"

definition delete_prop :: "string \<Rightarrow> object \<Rightarrow> object" where
  "delete_prop key obj = filter (\<lambda>p. fst p \<noteq> key) obj"

text \<open>
  \<^verbatim>\<open>DefaultFormatCodeSettings\<close>. \<^verbatim>\<open>os.EOL\<close> is the platform's line ending, a
  parameter; \<^verbatim>\<open>ts.IndentStyle.Smart\<close> is the number 2 and
  \<^verbatim>\<open>ts.SemicolonPreference.Insert\<close> and \<^verbatim>\<open>Remove\<close> are the strings
  \<^verbatim>\<open>"insert"\<close> and \<^verbatim>\<open>"remove"\<close> in the TypeScript library.
\<close>

definition IndentStyle_Smart :: json where
  "IndentStyle_Smart = JNum 2"

definition SemicolonPreference_Insert :: json where
  "SemicolonPreference_Insert = JStr ''insert''"

definition SemicolonPreference_Remove :: json where
  "SemicolonPreference_Remove = JStr ''remove''"

definition DefaultFormatCodeSettings :: "string \<Rightarrow> object" where
  "DefaultFormatCodeSettings EOL =
     [(''baseIndentSize'', JNum 0),
      (''newLineCharacter'', JStr EOL),
      (''convertTabsToSpaces'', JBool False),
      (''tabSize'', JNum 1),
      (''indentSize'', JNum 1),
      (''indentStyle'', IndentStyle_Smart),
      (''trimTrailingWhitespace'', JBool True),
      (''insertSpaceAfterCommaDelimiter'', JBool True),
      (''insertSpaceAfterSemicolonInForStatements'', JBool True),
      (''insertSpaceBeforeAndAfterBinaryOperators'', JBool True),
      (''insertSpaceAfterConstructor'', JBool True),
      (''insertSpaceAfterKeywordsInControlFlowStatements'', JBool True),
      (''insertSpaceAfterFunctionKeywordForAnonymousFunctions'', JBool True),
      (''insertSpaceAfterOpeningAndBeforeClosingNonemptyParenthesis'', JBool False),
      (''insertSpaceAfterOpeningAndBeforeClosingNonemptyBrackets'', JBool False),
      (''insertSpaceAfterOpeningAndBeforeClosingNonemptyBraces'', JBool True),
      (''insertSpaceAfterOpeningAndBeforeClosingEmptyBraces'', JBool False),
      (''insertSpaceAfterOpeningAndBeforeClosingTemplateStringBraces'', JBool False),
      (''insertSpaceAfterOpeningAndBeforeClosingJsxExpressionBraces'', JBool False),
      (''insertSpaceAfterTypeAssertion'', JBool True),
      (''insertSpaceBeforeFunctionParenthesis'', JBool False),
      (''placeOpenBraceOnNewLineForFunctions'', JBool False),
      (''placeOpenBraceOnNewLineForControlBlocks'', JBool False),
      (''insertSpaceBeforeTypeAnnotation'', JBool False),
      (''indentMultiLineObjectLiteralBeginningOnBlankLine'', JBool True),
      (''semicolons'', SemicolonPreference_Insert)]"

text \<open>
  The fields of the options bag that the parser reads. The source guards each with
  \<^verbatim>\<open>typeof\<close>, so each may hold any value or be absent; \<^verbatim>\<open>tspTsFormat\<close> is a
  path.
\<close>

record ParserOptions =
  endOfLine :: "json option"
  semi :: "json option"
  tabWidth :: "json option"
  useTabs :: "json option"
  bracketSpacing :: "json option"
  singleQuote :: "json option"
  tspTsFormat :: "string option"

definition no_options :: ParserOptions where
  "no_options =
     \<lparr>endOfLine = None, semi = None, tabWidth = None, useTabs = None,
      bracketSpacing = None, singleQuote = None, tspTsFormat = None\<rparr>"

text \<open>The \<^verbatim>\<open>switch (options.endOfLine)\<close>.\<close>

definition apply_endOfLine :: "ParserOptions \<Rightarrow> object \<Rightarrow> object" where
  "apply_endOfLine opts format =
     (if endOfLine opts = Some (JStr ''crlf'')
        then set_prop ''newLineCharacter'' (JStr [CHR 0x0D, CHR 0x0A]) format
      else if endOfLine opts = Some (JStr ''lf'')
        then set_prop ''newLineCharacter'' (JStr [CHR 0x0A]) format
      else if endOfLine opts = Some (JStr ''cr'')
        then set_prop ''newLineCharacter'' (JStr [CHR 0x0D]) format
      else delete_prop ''newLineCharacter'' format)"

definition apply_semi :: "ParserOptions \<Rightarrow> object \<Rightarrow> object" where
  "apply_semi opts format =
     (case semi opts of
        Some (JBool b) \<Rightarrow>
          set_prop ''semicolons''
            (if \<not> b then SemicolonPreference_Remove else SemicolonPreference_Insert) format
      | _ \<Rightarrow> format)"

text \<open>\<^verbatim>\<open>format.indentSize = format.tabSize = v\<close> assigns \<^verbatim>\<open>tabSize\<close> first.\<close>

definition set_sizes :: "json \<Rightarrow> object \<Rightarrow> object" where
  "set_sizes v format = set_prop ''indentSize'' v (set_prop ''tabSize'' v format)"

definition apply_tabWidth :: "ParserOptions \<Rightarrow> object \<Rightarrow> object" where
  "apply_tabWidth opts format =
     (case tabWidth opts of
        Some (JNum n) \<Rightarrow> set_sizes (JNum n) format
      | _ \<Rightarrow> format)"

definition apply_useTabs :: "ParserOptions \<Rightarrow> object \<Rightarrow> object" where
  "apply_useTabs opts format =
     (case useTabs opts of
        Some (JBool b) \<Rightarrow>
          (let format1 = set_prop ''convertTabsToSpaces'' (JBool (\<not> b)) format
           in if truthy_opt (get_prop format1 ''convertTabsToSpaces'')
              then (case tabWidth opts of
                      Some (JNum n) \<Rightarrow> set_sizes (JNum 1) format1
                    | _ \<Rightarrow> format1)
              else format1)
      | _ \<Rightarrow> delete_prop ''convertTabsToSpaces'' format)"

definition apply_bracketSpacing :: "ParserOptions \<Rightarrow> object \<Rightarrow> object" where
  "apply_bracketSpacing opts format =
     (case bracketSpacing opts of
        Some (JBool b) \<Rightarrow>
          set_prop ''insertSpaceAfterOpeningAndBeforeClosingNonemptyBrackets'' (JBool b) format
      | _ \<Rightarrow> format)"

text \<open>The settings as they stand before the override file is looked at.\<close>

definition caller_settings :: "string \<Rightarrow> ParserOptions \<Rightarrow> object" where
  "caller_settings EOL opts =
     apply_bracketSpacing opts (apply_useTabs opts (apply_tabWidth opts
       (apply_semi opts (apply_endOfLine opts (DefaultFormatCodeSettings EOL)))))"

text \<open>
  \<^verbatim>\<open>merge(format, source)\<close> of lodash on these values. A falsy source is skipped.
  Every own enumerable property of the source is visited in order: a property holding an
  object is merged recursively into the destination's property when that is an object, and
  into a new empty object otherwise; any other value is assigned. A property named
  \<^verbatim>\<open>__proto__\<close> that holds an object is passed over (lodash reads it as
  \<^verbatim>\<open>undefined\<close>). A number or a boolean has no properties; a string has one
  property per index.
\<close>

function baseMerge :: "object \<Rightarrow> (string \<times> json) list \<Rightarrow> object" where
  "baseMerge obj [] = obj"
| "baseMerge obj ((key, srcValue) # rest) =
     baseMerge
       (case srcValue of
          JObj ps \<Rightarrow>
            if key = ''__proto__'' then obj
            else set_prop key
                   (JObj (baseMerge (case get_prop obj key of Some (JObj o1) \<Rightarrow> o1 | _ \<Rightarrow> []) ps))
                   obj
        | _ \<Rightarrow> set_prop key srcValue obj)
       rest"
  by pat_completeness auto
termination
  by (relation "measure (\<lambda>(obj, src). size_list (size_prod (\<lambda>k. 0) size) src)") auto

definition string_props :: "string \<Rightarrow> (string \<times> json) list" where
  "string_props s = map (\<lambda>(i, c). (String_nat i, JStr [c])) (enumerate 0 s)"

definition merge :: "object \<Rightarrow> json option \<Rightarrow> object" where
  "merge format source =
     (case source of
        None \<Rightarrow> format
      | Some v \<Rightarrow>
          if \<not> truthy v then format
          else (case v of
                  JObj ps \<Rightarrow> baseMerge format ps
                | JStr s \<Rightarrow> baseMerge format (string_props s)
                | _ \<Rightarrow> format))"

text \<open>The properties of a source that \<^const>\<open>baseMerge\<close> does not pass over.\<close>

fun is_object :: "json \<Rightarrow> bool" where
  "is_object (JObj ps) = True"
| "is_object v = False"

definition assigned_props :: "(string \<times> json) list \<Rightarrow> (string \<times> json) list" where
  "assigned_props ps = filter (\<lambda>p. \<not> (fst p = ''__proto__'' \<and> is_object (snd p))) ps"

text \<open>
  A property of the settings a call returned: absent when the object has no such key, and
  when the call threw.
\<close>

definition returned_prop :: "error + object \<Rightarrow> string \<Rightarrow> json option" where
  "returned_prop r key = (case r of Inl e \<Rightarrow> None | Inr fmt \<Rightarrow> get_prop fmt key)"

text \<open>The parser instance: its only state is the cached override settings.\<close>

record TypeScriptParser =
  formatOverrides :: "json option"

definition new_parser :: TypeScriptParser where
  "new_parser = \<lparr>formatOverrides = None\<rparr>"

text \<open>\<^verbatim>\<open>fs.readFileSync(path, 'utf8')\<close>: throws when the file does not exist.\<close>

definition fs_readFileSync :: "string \<Rightarrow> sys \<Rightarrow> (error + string) \<times> sys" where
  "fs_readFileSync path s =
     (case disk s path of
        None \<Rightarrow> (Inl (ENOENT path), s\<lparr>sysReads := path # sysReads s\<rparr>)
      | Some txt \<Rightarrow> (Inr txt, s\<lparr>sysReads := path # sysReads s\<rparr>))"

text \<open>
  \<^verbatim>\<open>makeFormatCodeSettings(options)\<close>. \<^verbatim>\<open>json5Parse\<close> is the JSON5 library's
  parser, a parameter: it returns the parsed value or throws.
\<close>

definition makeFormatCodeSettings ::
  "string \<Rightarrow> (string \<Rightarrow> error + json) \<Rightarrow> ParserOptions \<Rightarrow> TypeScriptParser \<times> sys
     \<Rightarrow> (error + object) \<times> TypeScriptParser \<times> sys" where
  "makeFormatCodeSettings EOL json5Parse opts st =
     (case st of (this, s) \<Rightarrow>
        (let format = caller_settings EOL opts
         in (case tspTsFormat opts of
               None \<Rightarrow> (Inr format, this, s)
             | Some path \<Rightarrow>
                 if path = [] then (Inr format, this, s)
                 else if \<not> truthy_opt (formatOverrides this)
                 then (case fs_readFileSync path s of
                         (Inl e, s') \<Rightarrow> (Inl e, this, s')
                       | (Inr txt, s') \<Rightarrow>
                           (case json5Parse txt of
                              Inl e \<Rightarrow> (Inl e, this, s')
                            | Inr v \<Rightarrow>
                                (Inr (merge format (Some v)),
                                 this\<lparr>formatOverrides := Some v\<rparr>, s')))
                 else (Inr (merge format (formatOverrides this)), this, s))))"

text \<open>
  The property names that \<^const>\<open>merge\<close> visits in a source, and hence assigns in
  the destination.
\<close>

definition merged_keys :: "json option \<Rightarrow> string list" where
  "merged_keys source =
     (case source of
        None \<Rightarrow> []
      | Some v \<Rightarrow>
          if \<not> truthy v then []
          else (case v of
                  JObj ps \<Rightarrow> map fst (assigned_props ps)
                | JStr s \<Rightarrow> map fst (string_props s)
                | _ \<Rightarrow> []))"

text \<open>
  What \<^verbatim>\<open>JSON5.parse\<close> returns on the three file contents used in the examples
  of this theory: \<^verbatim>\<open>null\<close>, \<^verbatim>\<open>{tabSize: 8}\<close> and
  \<^verbatim>\<open>{newLineCharacter: "\n"}\<close>.
\<close>

definition newLine_override_text :: string where
  "newLine_override_text =
     ''{newLineCharacter: '' @ [CHR 0x22, CHR 0x5C, CHR ''n'', CHR 0x22] @ ''}''"

definition json5Parse_examples :: "string \<Rightarrow> error + json" where
  "json5Parse_examples txt =
     (if txt = ''null'' then Inr JNull
      else if txt = ''{tabSize: 8}'' then Inr (JObj [(''tabSize'', JNum 8)])
      else if txt = newLine_override_text
        then Inr (JObj [(''newLineCharacter'', JStr [CHR 0x0A])])
      else Inl (SyntaxError txt))"

section \<open>Printing with the quote hook (\<^verbatim>\<open>TypeScriptParser.tsPrintSourceFile\<close>)\<close>

text \<open>
  A syntax tree: every node has a kind, the internal \<^verbatim>\<open>singleQuote\<close> property
  (absent until assigned) and the children that \<^verbatim>\<open>ts.forEachChild\<close> visits.
\<close>

datatype SyntaxKind = StringLiteral | OtherKind nat

datatype node = Node (kind: SyntaxKind) (node_singleQuote: "bool option") (children: "node list")

text \<open>
  \<^verbatim>\<open>visitNode\<close> with the resolved flag \<open>q\<close>. The callback returns nothing, so
  \<^verbatim>\<open>forEachChild\<close> goes through all children.
\<close>

fun visitNode :: "bool \<Rightarrow> node \<Rightarrow> node" where
  "visitNode q (Node k f cs) =
     Node k (case k of StringLiteral \<Rightarrow> Some q | OtherKind i \<Rightarrow> f) (map (visitNode q) cs)"

text \<open>\<^verbatim>\<open>String.prototype.toLowerCase\<close> on the code units of ASCII.\<close>

definition toLowerCase_char :: "char \<Rightarrow> char" where
  "toLowerCase_char c =
     (case map_of (zip ''ABCDEFGHIJKLMNOPQRSTUVWXYZ'' ''abcdefghijklmnopqrstuvwxyz'') c of
        Some l \<Rightarrow> l
      | None \<Rightarrow> c)"

definition toLowerCase :: "string \<Rightarrow> string" where
  "toLowerCase s = map toLowerCase_char s"

text \<open>
  The chain of tests that resolves \<^verbatim>\<open>options.singleQuote\<close> into the local
  \<^verbatim>\<open>singleQuote: boolean | undefined\<close>.
\<close>

definition resolve_singleQuote :: "json option \<Rightarrow> bool option" where
  "resolve_singleQuote v =
     (case v of
        Some (JBool b) \<Rightarrow> Some b
      | _ \<Rightarrow>
          if v = Some JNull \<or> v = Some (JStr ''0'') \<or> v = Some (JNum 0) then Some False
          else (case v of
                  Some (JStr str) \<Rightarrow>
                    (let s = toLowerCase str
                     in if s = ''false'' \<or> s = ''null'' \<or> s = ''no'' then Some False
                        else if truthy_opt v then Some True
                        else None)
                | _ \<Rightarrow> if truthy_opt v then Some True else None))"

text \<open>
  The process-wide \<^verbatim>\<open>ts.getLiteralText\<close> is a function value: one that was there
  before, or the wrapper that \<^verbatim>\<open>tsPrintSourceFile\<close> builds around the function it
  found.
\<close>

datatype literalText = PriorLiteralText nat | LiteralTextWrapper literalText

record tsModule =
  getLiteralText :: literalText

text \<open>
  \<^verbatim>\<open>try { body } finally { fin }\<close> for a finaliser that neither throws nor returns:
  it runs on the state the body leaves, whether the body returned or threw, and the body's
  outcome is passed on.
\<close>

definition try_finally ::
  "('s \<Rightarrow> (error + 'a) \<times> 's) \<Rightarrow> ('s \<Rightarrow> 's) \<Rightarrow> 's \<Rightarrow> (error + 'a) \<times> 's" where
  "try_finally body fin st = (case body st of (r, st') \<Rightarrow> (r, fin st'))"

text \<open>
  \<^verbatim>\<open>tsPrintSourceFile(sourceFile, options)\<close>. The printer of the TypeScript library
  is a parameter: \<open>printNode\<close> runs on the module as it finds it, may change it, and
  returns the text or throws. The result is the printer's outcome, the tree as tagged, and
  the module as the call leaves it.
\<close>

definition tsPrintSourceFile ::
  "('m tsModule_scheme \<Rightarrow> node \<Rightarrow> (error + string) \<times> 'm tsModule_scheme) \<Rightarrow> node \<Rightarrow> ParserOptions
     \<Rightarrow> 'm tsModule_scheme \<Rightarrow> (error + string) \<times> node \<times> 'm tsModule_scheme" where
  "tsPrintSourceFile printNode sourceFile opts ts =
     (let sq = resolve_singleQuote (singleQuote opts);
          sourceFile1 = (case sq of Some q \<Rightarrow> visitNode q sourceFile | None \<Rightarrow> sourceFile);
          getLiteralTextWrapper = getLiteralText ts;
          ts1 = ts\<lparr>getLiteralText := LiteralTextWrapper getLiteralTextWrapper\<rparr>
      in (case try_finally (\<lambda>m. printNode m sourceFile1)
                 (\<lambda>m. m\<lparr>getLiteralText := getLiteralTextWrapper\<rparr>) ts1 of
            (r, ts2) \<Rightarrow> (r, sourceFile1, ts2)))"

section \<open>Concrete states for the examples\<close>

definition host_with_file :: "string \<Rightarrow> string \<Rightarrow> host" where
  "host_with_file fileName text = new_host\<lparr>files := [fileName \<mapsto> Some text]\<rparr>"

definition empty_sys :: sys where
  "empty_sys = \<lparr>disk = Map.empty, sysReads = []\<rparr>"

definition sys_with_file :: "string \<Rightarrow> string \<Rightarrow> sys" where
  "sys_with_file fileName text = \<lparr>disk = [fileName \<mapsto> text], sysReads = []\<rparr>"

definition sys_with_files :: "(string \<times> string) list \<Rightarrow> sys" where
  "sys_with_files fs = \<lparr>disk = map_of fs, sysReads = []\<rparr>"

definition arrays_with :: "TextChange list \<Rightarrow> arrays" where
  "arrays_with xs = \<lparr>cells = [0 \<mapsto> xs], next_ref = 1\<rparr>"

section \<open>Properties of the compiler host\<close>

subsection \<open>Script versions\<close>

lemma String_nat_1: "String_nat (Suc 0) = ''1''"
  by (simp add: String_nat.simps digit_char_def)

lemma getScriptVersion_number:
  "getScriptVersion p h = String_nat (scriptVersionNumber p h)"
  by (simp add: getScriptVersion_def scriptVersionNumber_def String_nat_1 split: option.splits)

text \<open>Writing a string never throws, and the counter goes up by one.\<close>

lemma writeFile_string_returns: "fst (writeFile p (Some t) h) = Inr ()"
  by (simp add: writeFile_def createSourceFile_def Let_def split: option.splits)

lemma writeFile_fileVersions:
  "fileVersions (snd (writeFile p (Some t) h)) p = Some (scriptVersionNumber p h + 1)"
  by (simp add: writeFile_def createSourceFile_def bumpVersion_def scriptVersionNumber_def Let_def
        split: option.splits)

lemma writeFile_number:
  "scriptVersionNumber p (snd (writeFile p (Some t) h)) = scriptVersionNumber p h + 1"
  by (simp add: scriptVersionNumber_def writeFile_fileVersions)

lemma writeFiles_returns: "fst (writeFiles p texts h) = Inr ()"
proof (induction texts arbitrary: h)
  case Nil
  then show ?case by simp
next
  case (Cons t texts)
  then show ?case
    using writeFile_string_returns [of p t h]
    by (cases "writeFile p (Some t) h") (auto split: sum.splits)
qed

lemma writeFiles_number:
  "scriptVersionNumber p (snd (writeFiles p texts h)) = scriptVersionNumber p h + length texts"
proof (induction texts arbitrary: h)
  case Nil
  then show ?case by simp
next
  case (Cons t texts)
  obtain r h' where w: "writeFile p (Some t) h = (r, h')" by (cases "writeFile p (Some t) h")
  have r: "r = Inr ()" using writeFile_string_returns [of p t h] w by simp
  have n: "scriptVersionNumber p h' = scriptVersionNumber p h + 1"
    using writeFile_number [of p t h] w by simp
  show ?case using Cons.IH [of h'] w r n by simp
qed

text \<open>
  Writing \<^verbatim>\<open>undefined\<close> where a source file is cached throws after the text is
  stored and before the counter goes up.
\<close>

lemma writeFile_undefined_throws:
  "sourceFiles h p = Some sf \<Longrightarrow>
   writeFile p None h = (Inl TypeError, h\<lparr>files := (files h)(p \<mapsto> None)\<rparr>)"
  by (simp add: writeFile_def createSourceFile_def Let_def)

text \<open>Decimal numerals of different numbers differ.\<close>

lemma digit_char_inj:
  assumes "a < 10" "b < 10" "digit_char a = digit_char b"
  shows "a = b"
proof -
  have a: "a \<in> {0,1,2,3,4,5,6,7,8,9}" using assms(1) by auto
  have b: "b \<in> {0,1,2,3,4,5,6,7,8,9}" using assms(2) by auto
  show ?thesis using a b assms(3) by (auto simp: digit_char_def)
qed

lemma String_nat_nonempty: "String_nat n \<noteq> []"
  by (subst String_nat.simps) simp

lemma String_nat_inj: "String_nat n = String_nat m \<Longrightarrow> n = m"
proof (induction n arbitrary: m rule: String_nat.induct)
  case (1 n)
  show ?case
  proof (cases "n < 10")
    case n: True
    show ?thesis
    proof (cases "m < 10")
      case True
      then show ?thesis
        using n "1.prems" digit_char_inj
        by (simp add: String_nat.simps [of n] String_nat.simps [of m])
    next
      case False
      then show ?thesis
        using n "1.prems" String_nat_nonempty [of "m div 10"]
        by (simp add: String_nat.simps [of n] String_nat.simps [of m])
    qed
  next
    case n: False
    show ?thesis
    proof (cases "m < 10")
      case True
      then show ?thesis
        using n "1.prems" String_nat_nonempty [of "n div 10"]
        by (simp add: String_nat.simps [of n] String_nat.simps [of m])
    next
      case False
      then have e: "String_nat (n div 10) = String_nat (m div 10)"
        and d: "digit_char (n mod 10) = digit_char (m mod 10)"
        using n "1.prems" by (simp_all add: String_nat.simps [of n] String_nat.simps [of m])
      have "n div 10 = m div 10" using "1.IH" [OF n e] .
      moreover have "n mod 10 = m mod 10" using digit_char_inj [OF _ _ d] by simp
      ultimately show ?thesis by (metis div_mult_mod_eq)
    qed
  qed
qed

text \<open>Every write changes the version string, whatever is written.\<close>

lemma getScriptVersion_changes:
  "getScriptVersion p (snd (writeFile p (Some t) h)) \<noteq> getScriptVersion p h"
  using String_nat_inj [of "scriptVersionNumber p h + 1" "scriptVersionNumber p h"]
  by (auto simp: getScriptVersion_number writeFile_number)

text \<open>
  Claim C2, as the code has it. A path without a version counter reports version
  \<open>"1"\<close>. A sequence of \<open>n\<close> writes of strings to such a path returns normally, and
  after it \<^verbatim>\<open>getScriptVersion\<close> reports \<open>n + 1\<close>: \<open>"2"\<close> after the first write,
  and one more after every further write, whatever the strings written (equal or not); one
  more write of a string after \<open>n\<close> writes returns normally, stores the counter
  \<open>n + 2\<close> and changes the reported version.
\<close>

theorem C2_version_after_writes:
  assumes "fileVersions h p = None"
  shows "getScriptVersion p h = ''1'' \<and>
         fst (writeFiles p texts h) = Inr () \<and>
         getScriptVersion p (snd (writeFiles p texts h)) = String_nat (length texts + 1) \<and>
         fst (writeFile p (Some t) (snd (writeFiles p texts h))) = Inr () \<and>
         fileVersions (snd (writeFile p (Some t) (snd (writeFiles p texts h)))) p
           = Some (length texts + 2) \<and>
         getScriptVersion p (snd (writeFile p (Some t) (snd (writeFiles p texts h))))
           \<noteq> getScriptVersion p (snd (writeFiles p texts h))"
proof -
  have n: "scriptVersionNumber p h = 1"
    using assms by (simp add: scriptVersionNumber_def)
  show ?thesis
    using n getScriptVersion_changes [of p t "snd (writeFiles p texts h)"]
    by (simp add: getScriptVersion_number writeFiles_number writeFile_fileVersions
          writeFiles_returns writeFile_string_returns String_nat_1)
qed

theorem C2_version_after_writes_witness:
  "fileVersions new_host ''a.ts'' = None \<and>
   getScriptVersion ''a.ts'' new_host = ''1'' \<and>
   fst (writeFiles ''a.ts'' [''x'', ''x''] new_host) = Inr () \<and>
   getScriptVersion ''a.ts'' (snd (writeFiles ''a.ts'' [''x'', ''x''] new_host)) = ''3'' \<and>
   fileVersions (snd (writeFile ''a.ts'' (Some ''x'')
        (snd (writeFiles ''a.ts'' [''x'', ''x''] new_host)))) ''a.ts'' = Some 4"
proof -
  have h: "fileVersions new_host ''a.ts'' = None" by (simp add: new_host_def)
  have s: "String_nat (length [''x'', ''x''] + 1) = ''3''"
    by (simp add: String_nat.simps digit_char_def)
  show ?thesis
    using h s C2_version_after_writes [OF h, of "[''x'', ''x'']" "''x''"] by simp
qed

text \<open>
  The claim as stated fails: after the first write of \<open>"x"\<close> to the new path
  \<open>"a.ts"\<close> the reported version is \<open>"2"\<close>, not \<open>"1"\<close>.
\<close>

theorem C2_first_write_counterexample:
  "getScriptVersion ''a.ts'' (snd (writeFile ''a.ts'' (Some ''x'') new_host)) = ''2'' \<and>
   getScriptVersion ''a.ts'' (snd (writeFile ''a.ts'' (Some ''x'') new_host)) \<noteq> ''1''"
  by (simp add: getScriptVersion_def writeFile_def bumpVersion_def new_host_def
        String_nat.simps digit_char_def Let_def)

subsection \<open>Applying text changes\<close>

lemma insort_cmp_by_start_desc:
  "insort_cmp by_start_desc x ys = insort_key (\<lambda>c. - int (start (span c))) x ys"
  by (induction ys) (auto simp: by_start_desc_def)

lemma array_sort_by_start_desc:
  "array_sort by_start_desc xs = sort_key (\<lambda>c. - int (start (span c))) xs"
  by (induction xs) (simp_all add: array_sort_def insort_cmp_by_start_desc)

lemma fold_rev_chained:
  "chained pos (length S) A \<Longrightarrow>
   fold spliceChange (rev A) S = take pos S @ splice_from pos S A"
proof (induction A arbitrary: pos)
  case Nil
  then show ?case by simp
next
  case (Cons c cs)
  let ?s = "start (span c)"
  let ?q = "start (span c) + span_length (span c)"
  from Cons.prems have ps: "pos \<le> ?s" and qn: "?q \<le> length S"
    and ch: "chained ?q (length S) cs" by simp_all
  have T: "fold spliceChange (rev cs) S = take ?q S @ splice_from ?q S cs"
    using Cons.IH [OF ch] .
  have lt: "length (take ?q S) = ?q" using qn by simp
  have a: "take ?s (take ?q S @ splice_from ?q S cs) = take ?s S"
    using qn by (simp add: min_def)
  have b: "drop ?q (take ?q S @ splice_from ?q S cs) = splice_from ?q S cs"
    using lt by simp
  have c: "take pos S @ take (?s - pos) (drop pos S) = take ?s S"
    using ps take_add [of pos "?s - pos" S] by simp
  have "fold spliceChange (rev (c # cs)) S
          = spliceChange c (fold spliceChange (rev cs) S)" by simp
  also have "\<dots> = take ?s S @ newText c @ splice_from ?q S cs"
    unfolding T spliceChange_def a b ..
  also have "\<dots> = take pos S @ splice_from pos S (c # cs)"
    using c by simp
  finally show ?case .
qed

lemma chained_of_sorted:
  "sorted (map (\<lambda>c. start (span c)) A) \<Longrightarrow> distinct (map (\<lambda>c. start (span c)) A) \<Longrightarrow>
   (\<forall>a\<in>set A. \<forall>b\<in>set A. a \<noteq> b \<longrightarrow> ranges_disjoint a b) \<Longrightarrow>
   (\<forall>a\<in>set A. start (span a) + span_length (span a) \<le> n) \<Longrightarrow>
   (\<forall>a\<in>set A. pos \<le> start (span a)) \<Longrightarrow> chained pos n A"
proof (induction A arbitrary: pos)
  case Nil
  then show ?case by simp
next
  case (Cons c cs)
  have "\<forall>d\<in>set cs. start (span c) + span_length (span c) \<le> start (span d)"
  proof
    fix d assume d: "d \<in> set cs"
    have le: "start (span c) \<le> start (span d)" using Cons.prems(1) d by auto
    have ne: "start (span c) \<noteq> start (span d)" using Cons.prems(2) d by auto
    have "c \<noteq> d" using ne by auto
    then have "ranges_disjoint c d" using Cons.prems(3) d by auto
    then show "start (span c) + span_length (span c) \<le> start (span d)"
      using le ne by (auto simp: ranges_disjoint_def)
  qed
  moreover have "chained (start (span c) + span_length (span c)) n cs"
    using Cons.IH [of "start (span c) + span_length (span c)"] Cons.prems calculation
    by auto
  ultimately show ?case using Cons.prems by simp
qed

lemma non_overlapping_set:
  "non_overlapping cs \<Longrightarrow> a \<in> set cs \<Longrightarrow> b \<in> set cs \<Longrightarrow> a \<noteq> b \<Longrightarrow> ranges_disjoint a b"
  by (induction cs) (auto simp: list_all_iff ranges_disjoint_def)

lemma filter_key_singleton:
  "distinct (map f ys) \<Longrightarrow> k \<in> set ys \<Longrightarrow> filter (\<lambda>x. f k = f x) ys = [k]"
proof (induction ys)
  case Nil
  then show ?case by simp
next
  case (Cons y ys)
  show ?case
  proof (cases "k = y")
    case True
    have "filter (\<lambda>x. f y = f x) ys = []"
      using Cons.prems(1) by (auto simp: filter_empty_conv)
    then show ?thesis using True by simp
  next
    case False
    then have "k \<in> set ys" using Cons.prems by simp
    moreover have "f y \<notin> f ` set ys" using Cons.prems(1) by simp
    then have "f k \<noteq> f y" using calculation by (metis imageI)
    ultimately show ?thesis using Cons \<open>f k \<noteq> f y\<close> by simp
  qed
qed

lemma sort_key_unique:
  assumes "mset ys = mset xs" "sorted (map f ys)" "distinct (map f xs)"
  shows "sort_key f xs = ys"
proof (rule properties_for_sort_key [OF assms(1) _ assms(2)])
  fix k assume k: "k \<in> set ys"
  have dy: "distinct (map f ys)"
    using assms(1,3) by (metis distinct_map mset_eq_imp_distinct_iff mset_eq_setD mset_map set_mset_mset)
  have kx: "k \<in> set xs" using k assms(1) by (metis mset_eq_setD)
  show "filter (\<lambda>x. f k = f x) ys = filter (\<lambda>x. f k = f x) xs"
    using filter_key_singleton [OF dy k] filter_key_singleton [OF assms(3) kx] by simp
qed

lemma sorted_desc_rev:
  "sorted (map (\<lambda>c. - int (start (span c))) D) \<Longrightarrow> sorted (map (\<lambda>c. start (span c)) (rev D))"
  by (simp add: sorted_wrt_rev sorted_map rev_map[symmetric] sorted_wrt_map)

lemma array_sort_splice:
  assumes "mset batch = mset cs" "non_overlapping cs" "within_bounds S cs"
    "distinct (map (\<lambda>c. start (span c)) cs)"
  shows "fold spliceChange (array_sort by_start_desc batch) S = splice_original S cs"
proof -
  let ?D = "array_sort by_start_desc batch"
  let ?A = "rev ?D"
  have D: "?D = sort_key (\<lambda>c. - int (start (span c))) batch"
    by (rule array_sort_by_start_desc)
  have mA: "mset ?A = mset cs" using assms(1) by (simp add: D)
  have sA: "sorted (map (\<lambda>c. start (span c)) ?A)"
    by (rule sorted_desc_rev) (simp add: D)
  have A: "sort_key (\<lambda>c. start (span c)) cs = ?A"
    by (rule sort_key_unique [OF mA sA assms(4)])
  have setA: "set ?A = set cs" using mA by (metis mset_eq_setD)
  have dA: "distinct (map (\<lambda>c. start (span c)) ?A)"
    using A assms(4) by (metis distinct_map distinct_sort set_sort)
  have "chained 0 (length S) ?A"
  proof (rule chained_of_sorted [OF sA dA])
    show "\<forall>a\<in>set ?A. \<forall>b\<in>set ?A. a \<noteq> b \<longrightarrow> ranges_disjoint a b"
      unfolding setA using non_overlapping_set [OF assms(2)] by blast
    show "\<forall>a\<in>set ?A. start (span a) + span_length (span a) \<le> length S"
      unfolding setA using assms(3) by (simp add: within_bounds_def list_all_iff)
    show "\<forall>a\<in>set ?A. 0 \<le> start (span a)" by simp
  qed
  then have "fold spliceChange (rev ?A) S = take 0 S @ splice_from 0 S ?A"
    by (rule fold_rev_chained)
  then show ?thesis by (simp add: splice_original_def A)
qed

lemma applyTextChanges_result:
  assumes "fst (readFile fileName (h, s)) = Some S" "cells ar textChanges = Some batch"
  shows "fst (applyTextChanges fileName textChanges (h, s, ar))
           = Inr (Some (fold spliceChange (array_sort by_start_desc batch) S))"
proof -
  obtain h1 s1 where r: "readFile fileName (h, s) = (Some S, h1, s1)"
    using assms(1) by (cases "readFile fileName (h, s)") auto
  let ?t = "fold spliceChange (array_sort by_start_desc batch) S"
  obtain h2 where w: "writeFile fileName (Some ?t) h1 = (Inr (), h2)"
    using writeFile_string_returns [of fileName ?t h1]
    by (cases "writeFile fileName (Some ?t) h1") auto
  show ?thesis
    using assms(2) r w
    by (simp add: applyTextChanges_def array_slice0_def array_sort_inplace_def Let_def)
qed

text \<open>
  Claim C1, as the code has it. Let the file's text be \<open>S\<close> and let the batch
  passed to \<^verbatim>\<open>applyTextChanges\<close> be any arrangement of the edits \<open>cs\<close>. If the
  edits of \<open>cs\<close> do not overlap, lie within the bounds of \<open>S\<close> and start at pairwise
  different offsets, the call returns the text obtained by splicing every edit at its
  offsets of the original \<open>S\<close>, whatever the order of the batch.
\<close>

theorem C1_applyTextChanges_splice_original:
  assumes "fst (readFile fileName (h, s)) = Some S"
    and "cells ar textChanges = Some batch"
    and "mset batch = mset cs"
    and "non_overlapping cs"
    and "within_bounds S cs"
    and "distinct (map (\<lambda>c. start (span c)) cs)"
  shows "fst (applyTextChanges fileName textChanges (h, s, ar)) = Inr (Some (splice_original S cs))"
  using applyTextChanges_result [OF assms(1,2)] array_sort_splice [OF assms(3-6)] by simp

text \<open>
  The scenario of the specification: the two edits on \<open>"01234abc"\<close>, listed in either
  order, give \<open>"HELLOXabc"\<close>.
\<close>

theorem C1_applyTextChanges_splice_original_witness:
  "fst (applyTextChanges ''a.ts'' 0
         (host_with_file ''a.ts'' ''01234abc'', empty_sys,
          arrays_with [mkChange 5 0 ''X'', mkChange 0 5 ''HELLO''])) = Inr (Some ''HELLOXabc'')
   \<and> fst (applyTextChanges ''a.ts'' 0
         (host_with_file ''a.ts'' ''01234abc'', empty_sys,
          arrays_with [mkChange 0 5 ''HELLO'', mkChange 5 0 ''X''])) = Inr (Some ''HELLOXabc'')"
proof -
  let ?cs = "[mkChange 5 0 ''X'', mkChange 0 5 ''HELLO'']"
  let ?h = "host_with_file ''a.ts'' ''01234abc''"
  have r: "fst (readFile ''a.ts'' (?h, empty_sys)) = Some ''01234abc''"
    by (simp add: readFile_def host_with_file_def new_host_def)
  have n: "non_overlapping ?cs" by (simp add: mkChange_def ranges_disjoint_def)
  have w: "within_bounds ''01234abc'' ?cs" by (simp add: within_bounds_def mkChange_def)
  have d: "distinct (map (\<lambda>c. start (span c)) ?cs)" by (simp add: mkChange_def)
  have v: "splice_original ''01234abc'' ?cs = ''HELLOXabc''"
    by (simp add: splice_original_def mkChange_def)
  have c1: "cells (arrays_with ?cs) 0 = Some ?cs" by (simp add: arrays_with_def)
  have c2: "cells (arrays_with (rev ?cs)) 0 = Some (rev ?cs)" by (simp add: arrays_with_def)
  have m: "mset (rev ?cs) = mset ?cs" by simp
  show ?thesis
    using C1_applyTextChanges_splice_original [OF r c1 refl n w d]
          C1_applyTextChanges_splice_original [OF r c2 m n w d] v
    by simp
qed

text \<open>
  The claim as stated fails for edits that share a start offset. Two insertions at
  offset 0 replace empty ranges, so they do not overlap and lie within bounds; the stable
  sort keeps them in batch order, and the text returned depends on that order.
\<close>

theorem C1_same_start_counterexample:
  "non_overlapping [mkChange 0 0 ''A'', mkChange 0 0 ''B'']
   \<and> within_bounds ''ab'' [mkChange 0 0 ''A'', mkChange 0 0 ''B'']
   \<and> fst (applyTextChanges ''a.ts'' 0
         (host_with_file ''a.ts'' ''ab'', empty_sys,
          arrays_with [mkChange 0 0 ''A'', mkChange 0 0 ''B''])) = Inr (Some ''BAab'')
   \<and> fst (applyTextChanges ''a.ts'' 0
         (host_with_file ''a.ts'' ''ab'', empty_sys,
          arrays_with [mkChange 0 0 ''B'', mkChange 0 0 ''A''])) = Inr (Some ''ABab'')"
  by (simp add: applyTextChanges_def readFile_def host_with_file_def new_host_def arrays_with_def
        array_slice0_def array_sort_inplace_def array_sort_def by_start_desc_def mkChange_def
        spliceChange_def within_bounds_def ranges_disjoint_def writeFile_def bumpVersion_def
        Let_def)

lemma applyTextChanges_arrays:
  assumes "cells ar textChanges = Some batch"
  shows "snd (snd (snd (applyTextChanges fileName textChanges (h, s, ar))))
           = ar\<lparr>cells := (cells ar)(next_ref ar \<mapsto> array_sort by_start_desc batch),
                next_ref := Suc (next_ref ar)\<rparr>"
  using assms
  by (auto simp: applyTextChanges_def array_slice0_def array_sort_inplace_def Let_def
           split: prod.splits option.splits sum.splits)

text \<open>
  Claim C10. In a well-formed store of arrays, \<^verbatim>\<open>applyTextChanges\<close> leaves the
  array it was given exactly as it was, elements and order: the sorted elements are those
  of a new array, created at the next unused reference.
\<close>

theorem C10_applyTextChanges_sorts_a_copy:
  assumes "wf_arrays ar" and "cells ar textChanges = Some batch"
  shows "cells (snd (snd (snd (applyTextChanges fileName textChanges (h, s, ar))))) textChanges
           = Some batch
         \<and> cells (snd (snd (snd (applyTextChanges fileName textChanges (h, s, ar))))) (next_ref ar)
           = Some (array_sort by_start_desc batch)"
proof -
  have "textChanges < next_ref ar"
    using assms by (simp add: wf_arrays_def)
  then show ?thesis
    using assms(2) by (simp add: applyTextChanges_arrays [OF assms(2)])
qed

theorem C10_applyTextChanges_sorts_a_copy_witness:
  "cells (snd (snd (snd (applyTextChanges ''a.ts'' 0
       (host_with_file ''a.ts'' ''01234abc'', empty_sys,
        arrays_with [mkChange 0 5 ''HELLO'', mkChange 5 0 ''X''])))))  0
     = Some [mkChange 0 5 ''HELLO'', mkChange 5 0 ''X'']
   \<and> cells (snd (snd (snd (applyTextChanges ''a.ts'' 0
       (host_with_file ''a.ts'' ''01234abc'', empty_sys,
        arrays_with [mkChange 0 5 ''HELLO'', mkChange 5 0 ''X''])))))  1
     = Some [mkChange 5 0 ''X'', mkChange 0 5 ''HELLO'']"
proof -
  let ?xs = "[mkChange 0 5 ''HELLO'', mkChange 5 0 ''X'']"
  have w: "wf_arrays (arrays_with ?xs)" by (simp add: wf_arrays_def arrays_with_def)
  have c: "cells (arrays_with ?xs) 0 = Some ?xs" by (simp add: arrays_with_def)
  have n: "next_ref (arrays_with ?xs) = 1" by (simp add: arrays_with_def)
  have a: "array_sort by_start_desc ?xs = [mkChange 5 0 ''X'', mkChange 0 5 ''HELLO'']"
    by (simp add: array_sort_def by_start_desc_def mkChange_def)
  show ?thesis
    using C10_applyTextChanges_sorts_a_copy [OF w c, of "''a.ts''" "host_with_file ''a.ts'' ''01234abc''" empty_sys]
    by (simp add: n a)
qed

subsection \<open>Reading through to the backing file system\<close>

text \<open>
  A file that is not in the store and whose backing content is a non-empty string is read
  from the backing file system once and answered from the store afterwards; a file that
  neither has is reported absent.
\<close>

lemma readFile_read_through_once:
  assumes "files h p = None" and "disk s p = Some t" and "t \<noteq> []"
  shows "readFile p (h, s) = (Some t, h\<lparr>files := (files h)(p \<mapsto> Some t)\<rparr>, s\<lparr>sysReads := p # sysReads s\<rparr>)
      \<and> readFile p (snd (readFile p (h, s)))
           = (Some t, h\<lparr>files := (files h)(p \<mapsto> Some t)\<rparr>, s\<lparr>sysReads := p # sysReads s\<rparr>)"
  using assms by (simp add: readFile_def sys_readFile_def)

lemma readFile_absent:
  assumes "files h p = None" and "disk s p = None"
  shows "fst (readFile p (h, s)) = None"
  using assms by (simp add: readFile_def sys_readFile_def)

text \<open>
  Claim C4 at a file whose backing content is the empty string: \<^verbatim>\<open>if (content)\<close>
  takes the empty string for absent, so the content is returned but not stored, the second
  \<^verbatim>\<open>readFile\<close> reads the backing file system again, and it returns whatever the
  backing file holds by then.
\<close>

theorem C4_empty_file_is_read_again:
  "fst (readFile ''empty.ts'' (new_host, sys_with_file ''empty.ts'' [])) = Some []
   \<and> files (fst (snd (readFile ''empty.ts'' (new_host, sys_with_file ''empty.ts'' []))))
        ''empty.ts'' = None
   \<and> sysReads (snd (snd (readFile ''empty.ts''
         (snd (readFile ''empty.ts'' (new_host, sys_with_file ''empty.ts'' []))))))
        = [''empty.ts'', ''empty.ts'']
   \<and> fst (readFile ''empty.ts''
         (fst (snd (readFile ''empty.ts'' (new_host, sys_with_file ''empty.ts'' []))),
          (snd (snd (readFile ''empty.ts'' (new_host, sys_with_file ''empty.ts'' []))))
             \<lparr>disk := [''empty.ts'' \<mapsto> ''x'']\<rparr>)) = Some ''x''"
  by (simp add: readFile_def sys_readFile_def new_host_def sys_with_file_def)

section \<open>Properties of the format settings\<close>

subsection \<open>Objects and the steps of the resolution\<close>

lemma map_of_replace_prop:
  "map_of (replace_prop k v obj) k'
     = (if k' = k \<and> k \<in> fst ` set obj then Some v else map_of obj k')"
  by (induction obj) (force+)

lemma map_of_insert_index:
  "k \<notin> fst ` set obj \<Longrightarrow>
   map_of (insert_index n k v obj) k' = (if k' = k then Some v else map_of obj k')"
  by (induction obj) (auto split: option.splits)

lemma map_of_append_new:
  "k \<notin> fst ` set obj \<Longrightarrow>
   map_of (obj @ [(k, v)]) k' = (if k' = k then Some v else map_of obj k')"
  by (induction obj) auto

lemma get_set_prop: "get_prop (set_prop k v obj) k' = (if k' = k then Some v else get_prop obj k')"
proof (cases "has_prop obj k")
  case True
  then show ?thesis
    by (simp add: get_prop_def set_prop_def has_prop_def map_of_replace_prop)
next
  case False
  then have n: "k \<notin> fst ` set obj" by (simp add: has_prop_def)
  show ?thesis
    using False map_of_insert_index [OF n] map_of_append_new [OF n]
    by (simp add: get_prop_def set_prop_def split: option.splits)
qed

lemma get_delete_prop: "get_prop (delete_prop k obj) k' = (if k' = k then None else get_prop obj k')"
  by (induction obj) (auto simp: get_prop_def delete_prop_def)

lemma has_prop_get: "has_prop obj k = (get_prop obj k \<noteq> None)"
  by (simp add: has_prop_def get_prop_def map_of_eq_None_iff)

lemma has_set_prop: "has_prop (set_prop k v obj) k' = (k' = k \<or> has_prop obj k')"
  by (simp add: has_prop_get get_set_prop)

lemma has_delete_prop: "has_prop (delete_prop k obj) k' = (k' \<noteq> k \<and> has_prop obj k')"
  by (simp add: has_prop_get get_delete_prop)

lemma has_baseMerge:
  "has_prop (baseMerge obj src) k = (has_prop obj k \<or> k \<in> set (map fst (assigned_props src)))"
proof (induction obj src rule: baseMerge.induct)
  case (1 obj)
  then show ?case by (simp add: assigned_props_def)
next
  case (2 obj key srcValue rest)
  show ?case
  proof (cases srcValue)
    case (JObj ps)
    then show ?thesis
      using "2.IH"(2) by (auto simp: has_set_prop assigned_props_def)
  qed (use "2.IH"(2) in \<open>auto simp: has_set_prop assigned_props_def\<close>)
qed

lemma assigned_props_string_props: "assigned_props (string_props s) = string_props s"
  by (auto simp: assigned_props_def string_props_def filter_id_conv)

lemma has_merge: "has_prop (merge format source) k = (has_prop format k \<or> k \<in> set (merged_keys source))"
proof (cases source)
  case None
  then show ?thesis by (simp add: merge_def merged_keys_def)
next
  case (Some v)
  then show ?thesis
    using assigned_props_string_props
    by (cases v) (simp_all add: merge_def merged_keys_def has_baseMerge)
qed

text \<open>The order of properties, and a source with \<^verbatim>\<open>__proto__\<close>, on examples.\<close>

lemma array_index_examples:
  "array_index ''0'' = Some 0" "array_index ''10'' = Some 10" "array_index ''01'' = None"
  "array_index ''tabSize'' = None" "array_index [] = None"
  "array_index ''4294967294'' = Some 4294967294" "array_index ''4294967295'' = None"
  by (simp_all add: array_index_def digit_of_def String_nat.simps digit_char_def)

lemma set_prop_order_example:
  "set_prop ''1'' JNull (set_prop ''b'' JNull (set_prop ''2'' JNull (set_prop ''a'' JNull [])))
     = [(''1'', JNull), (''2'', JNull), (''a'', JNull), (''b'', JNull)]"
  by (simp add: set_prop_def has_prop_def array_index_def digit_of_def
        String_nat.simps digit_char_def)

lemma merge_string_example:
  "merge [(''tabSize'', JNum 1)] (Some (JStr ''ab''))
     = [(''0'', JStr ''a''), (''1'', JStr ''b''), (''tabSize'', JNum 1)]"
  by (simp add: merge_def string_props_def set_prop_def has_prop_def array_index_def digit_of_def
        String_nat.simps digit_char_def)

lemma merge_proto_example:
  "merge [(''a'', JNum 1)] (Some (JObj [(''__proto__'', JObj [(''x'', JNum 1)]), (''b'', JNum 2)]))
     = [(''a'', JNum 1), (''b'', JNum 2)]"
  by (simp add: merge_def set_prop_def has_prop_def array_index_def digit_of_def)

lemma get_apply_semi:
  "k \<noteq> ''semicolons'' \<Longrightarrow> get_prop (apply_semi opts f) k = get_prop f k"
  by (simp add: apply_semi_def get_set_prop split: option.splits json.splits)

lemma get_apply_tabWidth:
  "k \<noteq> ''tabSize'' \<Longrightarrow> k \<noteq> ''indentSize'' \<Longrightarrow>
   get_prop (apply_tabWidth opts f) k = get_prop f k"
  by (simp add: apply_tabWidth_def set_sizes_def get_set_prop split: option.splits json.splits)

lemma get_apply_useTabs:
  "k \<noteq> ''tabSize'' \<Longrightarrow> k \<noteq> ''indentSize'' \<Longrightarrow> k \<noteq> ''convertTabsToSpaces'' \<Longrightarrow>
   get_prop (apply_useTabs opts f) k = get_prop f k"
  by (simp add: apply_useTabs_def set_sizes_def get_set_prop get_delete_prop Let_def
        split: option.splits json.splits)

lemma get_apply_bracketSpacing:
  "k \<noteq> ''insertSpaceAfterOpeningAndBeforeClosingNonemptyBrackets'' \<Longrightarrow>
   get_prop (apply_bracketSpacing opts f) k = get_prop f k"
  by (simp add: apply_bracketSpacing_def get_set_prop split: option.splits json.splits)

lemma get_apply_endOfLine_auto:
  "endOfLine opts = Some (JStr ''auto'') \<Longrightarrow>
   get_prop (apply_endOfLine opts f) ''newLineCharacter'' = None"
  by (simp add: apply_endOfLine_def get_delete_prop)

lemma caller_settings_auto:
  assumes "endOfLine opts = Some (JStr ''auto'')"
  shows "\<not> has_prop (caller_settings EOL opts) ''newLineCharacter''"
  using assms
  by (simp add: has_prop_get caller_settings_def get_apply_semi get_apply_tabWidth
        get_apply_useTabs get_apply_bracketSpacing get_apply_endOfLine_auto)

lemma get_apply_tabWidth_num:
  "tabWidth opts = Some (JNum n) \<Longrightarrow>
   get_prop (apply_tabWidth opts f) k
     = (if k = ''tabSize'' \<or> k = ''indentSize'' then Some (JNum n) else get_prop f k)"
  by (simp add: apply_tabWidth_def set_sizes_def get_set_prop)

lemma get_apply_useTabs_true:
  "useTabs opts = Some (JBool True) \<Longrightarrow>
   get_prop (apply_useTabs opts f) k
     = (if k = ''convertTabsToSpaces'' then Some (JBool False) else get_prop f k)"
  by (simp add: apply_useTabs_def get_set_prop Let_def)

lemma caller_settings_useTabs:
  assumes "useTabs opts = Some (JBool True)" "tabWidth opts = Some (JNum n)"
  shows "get_prop (caller_settings EOL opts) ''tabSize'' = Some (JNum n)
       \<and> get_prop (caller_settings EOL opts) ''indentSize'' = Some (JNum n)
       \<and> get_prop (caller_settings EOL opts) ''convertTabsToSpaces'' = Some (JBool False)"
  using assms
  by (simp add: caller_settings_def get_apply_bracketSpacing get_apply_useTabs_true
        get_apply_tabWidth_num)

lemma makeFormatCodeSettings_no_override:
  "\<not> truthy_text (tspTsFormat opts) \<Longrightarrow>
   makeFormatCodeSettings EOL parse opts (this, s) = (Inr (caller_settings EOL opts), this, s)"
  by (cases "tspTsFormat opts") (simp_all add: makeFormatCodeSettings_def)

lemma makeFormatCodeSettings_cached:
  "truthy_text (tspTsFormat opts) \<Longrightarrow> truthy_opt (formatOverrides this) \<Longrightarrow>
   makeFormatCodeSettings EOL parse opts (this, s)
     = (Inr (merge (caller_settings EOL opts) (formatOverrides this)), this, s)"
  by (cases "tspTsFormat opts") (simp_all add: makeFormatCodeSettings_def)

lemma makeFormatCodeSettings_load:
  "truthy_text (tspTsFormat opts) \<Longrightarrow> \<not> truthy_opt (formatOverrides this) \<Longrightarrow>
   makeFormatCodeSettings EOL parse opts (this, s) = (Inr fmt, this', s') \<Longrightarrow>
   \<exists>path txt v. tspTsFormat opts = Some path \<and> disk s path = Some txt \<and> parse txt = Inr v
      \<and> fmt = merge (caller_settings EOL opts) (Some v)
      \<and> this' = this\<lparr>formatOverrides := Some v\<rparr>
      \<and> s' = s\<lparr>sysReads := path # sysReads s\<rparr>"
  by (cases "tspTsFormat opts")
     (auto simp: makeFormatCodeSettings_def fs_readFileSync_def Let_def
        split: option.splits sum.splits prod.splits if_splits)

lemma makeFormatCodeSettings_load_returns:
  "tspTsFormat opts = Some path \<Longrightarrow> path \<noteq> [] \<Longrightarrow> \<not> truthy_opt (formatOverrides this) \<Longrightarrow>
   disk s path = Some content \<Longrightarrow> parse content = Inr v \<Longrightarrow>
   makeFormatCodeSettings EOL parse opts (this, s)
     = (Inr (merge (caller_settings EOL opts) (Some v)),
        this\<lparr>formatOverrides := Some v\<rparr>, s\<lparr>sysReads := path # sysReads s\<rparr>)"
  by (simp add: makeFormatCodeSettings_def fs_readFileSync_def)

lemma get_apply_endOfLine:
  "k \<noteq> ''newLineCharacter'' \<Longrightarrow> get_prop (apply_endOfLine opts f) k = get_prop f k"
  by (simp add: apply_endOfLine_def get_set_prop get_delete_prop)

lemma default_tabSize: "get_prop (DefaultFormatCodeSettings EOL) ''tabSize'' = Some (JNum 1)"
  by (simp add: DefaultFormatCodeSettings_def get_prop_def)

lemma caller_settings_default_tabSize:
  assumes "tabWidth opts = None" and "useTabs opts = None"
  shows "get_prop (caller_settings EOL opts) ''tabSize'' = Some (JNum 1)"
  using assms
  by (simp add: caller_settings_def get_apply_bracketSpacing apply_useTabs_def get_delete_prop
        apply_tabWidth_def get_apply_semi get_apply_endOfLine default_tabSize)

subsection \<open>Tabs and the tab width\<close>

text \<open>
  Claim C3 against the code. With \<^verbatim>\<open>useTabs = true\<close> and a numeric
  \<^verbatim>\<open>tabWidth = n\<close> (and no override file), \<^verbatim>\<open>convertTabsToSpaces\<close> becomes
  \<^verbatim>\<open>false\<close>, the branch that sets the sizes to 1 is not taken, and the settings
  returned have \<^verbatim>\<open>tabSize = indentSize = n\<close>.
\<close>

theorem C3_useTabs_keeps_tabWidth:
  assumes "useTabs opts = Some (JBool True)" and "tabWidth opts = Some (JNum n)"
    and "\<not> truthy_text (tspTsFormat opts)"
  shows "returned_prop (fst (makeFormatCodeSettings EOL parse opts (this, s))) ''tabSize'' = Some (JNum n)
       \<and> returned_prop (fst (makeFormatCodeSettings EOL parse opts (this, s))) ''indentSize'' = Some (JNum n)
       \<and> returned_prop (fst (makeFormatCodeSettings EOL parse opts (this, s))) ''convertTabsToSpaces''
            = Some (JBool False)"
  using caller_settings_useTabs [OF assms(1,2)]
  by (simp add: makeFormatCodeSettings_no_override [OF assms(3)] returned_prop_def)

text \<open>At \<^verbatim>\<open>useTabs = true, tabWidth = 4\<close> the sizes are 4, not 1.\<close>

theorem C3_useTabs_keeps_tabWidth_witness:
  "returned_prop (fst (makeFormatCodeSettings [CHR 0x0A] json5Parse_examples
            (no_options\<lparr>useTabs := Some (JBool True), tabWidth := Some (JNum 4)\<rparr>)
            (new_parser, empty_sys))) ''tabSize'' = Some (JNum 4)
   \<and> returned_prop (fst (makeFormatCodeSettings [CHR 0x0A] json5Parse_examples
            (no_options\<lparr>useTabs := Some (JBool True), tabWidth := Some (JNum 4)\<rparr>)
            (new_parser, empty_sys))) ''indentSize'' = Some (JNum 4)
   \<and> returned_prop (fst (makeFormatCodeSettings [CHR 0x0A] json5Parse_examples
            (no_options\<lparr>useTabs := Some (JBool True), tabWidth := Some (JNum 4)\<rparr>)
            (new_parser, empty_sys))) ''tabSize'' \<noteq> Some (JNum 1)"
  using C3_useTabs_keeps_tabWidth [of "no_options\<lparr>useTabs := Some (JBool True), tabWidth := Some (JNum 4)\<rparr>" 4
          "[CHR 0x0A]" json5Parse_examples new_parser empty_sys]
  by (simp add: no_options_def)

subsection \<open>The line ending\<close>

text \<open>
  Claim C7, as the code has it. For an options bag with \<^verbatim>\<open>endOfLine = "auto"\<close>,
  when the call returns settings: the key \<^verbatim>\<open>newLineCharacter\<close> is present in them
  exactly when an override-file path was supplied and the override settings merged last
  (those the instance holds after the call) define that key. In particular the key is
  absent whenever no override file is supplied.
\<close>

theorem C7_auto_newLine_only_from_overrides:
  assumes "endOfLine opts = Some (JStr ''auto'')"
    and "makeFormatCodeSettings EOL parse opts (this, s) = (Inr fmt, this', s')"
  shows "has_prop fmt ''newLineCharacter''
           = (truthy_text (tspTsFormat opts)
              \<and> ''newLineCharacter'' \<in> set (merged_keys (formatOverrides this')))"
proof (cases "truthy_text (tspTsFormat opts)")
  case False
  then show ?thesis
    using assms(2) caller_settings_auto [OF assms(1)]
    by (auto simp: makeFormatCodeSettings_no_override)
next
  case path: True
  show ?thesis
  proof (cases "truthy_opt (formatOverrides this)")
    case True
    then show ?thesis
      using assms(2) path caller_settings_auto [OF assms(1)]
      by (auto simp: makeFormatCodeSettings_cached has_merge)
  next
    case False
    from makeFormatCodeSettings_load [OF path False assms(2)]
    show ?thesis
      using path caller_settings_auto [OF assms(1)] by (auto simp: has_merge)
  qed
qed

theorem C7_auto_newLine_only_from_overrides_witness:
  "makeFormatCodeSettings [CHR 0x0A] json5Parse_examples
       (no_options\<lparr>endOfLine := Some (JStr ''auto'')\<rparr>) (new_parser, empty_sys)
     = (Inr (caller_settings [CHR 0x0A] (no_options\<lparr>endOfLine := Some (JStr ''auto'')\<rparr>)),
        new_parser, empty_sys)
   \<and> \<not> has_prop (caller_settings [CHR 0x0A] (no_options\<lparr>endOfLine := Some (JStr ''auto'')\<rparr>))
          ''newLineCharacter''"
proof -
  let ?o = "no_options\<lparr>endOfLine := Some (JStr ''auto'')\<rparr>"
  have e: "endOfLine ?o = Some (JStr ''auto'')" by simp
  have m: "makeFormatCodeSettings [CHR 0x0A] json5Parse_examples ?o (new_parser, empty_sys)
             = (Inr (caller_settings [CHR 0x0A] ?o), new_parser, empty_sys)"
    by (simp add: makeFormatCodeSettings_def no_options_def)
  show ?thesis
    using C7_auto_newLine_only_from_overrides [OF e m] m by (simp add: no_options_def)
qed

text \<open>
  The claim as stated fails when the options bag also names an override file that sets the
  key: the override layer is merged after the deletion.
\<close>

theorem C7_override_counterexample:
  "returned_prop (fst (makeFormatCodeSettings [CHR 0x0A] json5Parse_examples
       (no_options\<lparr>endOfLine := Some (JStr ''auto''), tspTsFormat := Some ''ts-format.json''\<rparr>)
       (new_parser, sys_with_files [(''ts-format.json'', newLine_override_text)])))
     ''newLineCharacter'' = Some (JStr [CHR 0x0A])"
  by (simp add: makeFormatCodeSettings_def no_options_def new_parser_def sys_with_files_def
        fs_readFileSync_def json5Parse_examples_def newLine_override_text_def merge_def
        returned_prop_def get_set_prop)

subsection \<open>The cached override settings\<close>

text \<open>
  Claim C6, as the code has it. If a call returns settings, a second call with the same
  options on the same instance, with the file system as the first call left it, returns
  equal settings. If moreover no override-file path is supplied or the override settings
  the instance holds after the first call are truthy (every object is), the second call
  returns the same settings and reads nothing, whatever the contents of the file system
  have become.
\<close>

theorem C6_second_call_uses_cache:
  assumes "makeFormatCodeSettings EOL parse opts (this, s) = (Inr fmt, this1, s1)"
  shows "fst (makeFormatCodeSettings EOL parse opts (this1, s1)) = Inr fmt
       \<and> (\<not> truthy_text (tspTsFormat opts) \<or> truthy_opt (formatOverrides this1) \<longrightarrow>
            makeFormatCodeSettings EOL parse opts (this1, s1\<lparr>disk := d'\<rparr>)
              = (Inr fmt, this1, s1\<lparr>disk := d'\<rparr>))"
proof (cases "truthy_text (tspTsFormat opts)")
  case False
  then show ?thesis
    using assms by (auto simp: makeFormatCodeSettings_no_override)
next
  case path: True
  show ?thesis
  proof (cases "truthy_opt (formatOverrides this)")
    case True
    then show ?thesis
      using assms path by (auto simp: makeFormatCodeSettings_cached)
  next
    case False
    from makeFormatCodeSettings_load [OF path False assms]
    obtain fname content v where l: "tspTsFormat opts = Some fname" "disk s fname = Some content"
        "parse content = Inr v" "fmt = merge (caller_settings EOL opts) (Some v)"
        "this1 = this\<lparr>formatOverrides := Some v\<rparr>" "s1 = s\<lparr>sysReads := fname # sysReads s\<rparr>"
      by blast
    have f: "formatOverrides this1 = Some v" using l(5) by simp
    have ne: "fname \<noteq> []" using path l(1) by simp
    have same: "fst (makeFormatCodeSettings EOL parse opts (this1, s1)) = Inr fmt"
    proof (cases "truthy v")
      case True
      then have "truthy_opt (formatOverrides this1)" using f by simp
      then show ?thesis
        using f l(4) by (simp add: makeFormatCodeSettings_cached [OF path])
    next
      case falsy: False
      then have n: "\<not> truthy_opt (formatOverrides this1)" using f by simp
      have d: "disk s1 fname = Some content" using l(2,6) by simp
      show ?thesis
        using makeFormatCodeSettings_load_returns
                [where parse = parse and content = content and EOL = EOL, OF l(1) ne n d l(3)] l(4)
        by simp
    qed
    have cached: "makeFormatCodeSettings EOL parse opts (this1, s1\<lparr>disk := d'\<rparr>)
                    = (Inr fmt, this1, s1\<lparr>disk := d'\<rparr>)"
      if t: "truthy_opt (formatOverrides this1)"
      using f l(4) by (simp add: makeFormatCodeSettings_cached [OF path t])
    show ?thesis using same cached path by simp
  qed
qed

theorem C6_second_call_uses_cache_witness:
  "makeFormatCodeSettings [CHR 0x0A] json5Parse_examples
       (no_options\<lparr>tspTsFormat := Some ''ts-format.json''\<rparr>)
       (\<lparr>formatOverrides = Some (JObj [(''tabSize'', JNum 8)])\<rparr>,
        \<lparr>disk = [''ts-format.json'' \<mapsto> ''null''], sysReads = [''ts-format.json'']\<rparr>)
     = (Inr (merge (caller_settings [CHR 0x0A] (no_options\<lparr>tspTsFormat := Some ''ts-format.json''\<rparr>))
               (Some (JObj [(''tabSize'', JNum 8)]))),
        \<lparr>formatOverrides = Some (JObj [(''tabSize'', JNum 8)])\<rparr>,
        \<lparr>disk = [''ts-format.json'' \<mapsto> ''null''], sysReads = [''ts-format.json'']\<rparr>)"
proof -
  let ?o = "no_options\<lparr>tspTsFormat := Some ''ts-format.json''\<rparr>"
  let ?v = "JObj [(''tabSize'', JNum 8)]"
  have first: "makeFormatCodeSettings [CHR 0x0A] json5Parse_examples ?o
                 (new_parser, sys_with_files [(''ts-format.json'', ''{tabSize: 8}'')])
     = (Inr (merge (caller_settings [CHR 0x0A] ?o) (Some ?v)),
        \<lparr>formatOverrides = Some ?v\<rparr>,
        \<lparr>disk = [''ts-format.json'' \<mapsto> ''{tabSize: 8}''], sysReads = [''ts-format.json'']\<rparr>)"
    by (simp add: makeFormatCodeSettings_def no_options_def new_parser_def sys_with_files_def
          fs_readFileSync_def json5Parse_examples_def)
  have c: "\<not> truthy_text (tspTsFormat ?o) \<or> truthy_opt (formatOverrides \<lparr>formatOverrides = Some ?v\<rparr>)"
    by simp
  show ?thesis
    using C6_second_call_uses_cache [OF first, of "[''ts-format.json'' \<mapsto> ''null'']"] c
    by simp
qed

text \<open>
  The cache-once half of the claim as stated fails when the override file parses to a falsy
  value: \<^verbatim>\<open>if (!this.formatOverrides)\<close> takes the cached \<^verbatim>\<open>null\<close> for
  "not loaded". The first call leaves \<^verbatim>\<open>tabSize = 1\<close>; after the file's content
  has changed, the second call reads the file again and returns \<^verbatim>\<open>tabSize = 8\<close>.
\<close>

theorem C6_falsy_override_counterexample:
  "makeFormatCodeSettings [CHR 0x0A] json5Parse_examples
       (no_options\<lparr>tspTsFormat := Some ''ts-format.json''\<rparr>)
       (new_parser, sys_with_files [(''ts-format.json'', ''null'')])
     = (Inr (caller_settings [CHR 0x0A] (no_options\<lparr>tspTsFormat := Some ''ts-format.json''\<rparr>)),
        \<lparr>formatOverrides = Some JNull\<rparr>,
        \<lparr>disk = [''ts-format.json'' \<mapsto> ''null''], sysReads = [''ts-format.json'']\<rparr>)
   \<and> returned_prop (Inr (caller_settings [CHR 0x0A] (no_options\<lparr>tspTsFormat := Some ''ts-format.json''\<rparr>)))
        ''tabSize'' = Some (JNum 1)
   \<and> returned_prop (fst (makeFormatCodeSettings [CHR 0x0A] json5Parse_examples
          (no_options\<lparr>tspTsFormat := Some ''ts-format.json''\<rparr>)
          (\<lparr>formatOverrides = Some JNull\<rparr>,
           \<lparr>disk = [''ts-format.json'' \<mapsto> ''{tabSize: 8}''], sysReads = [''ts-format.json'']\<rparr>)))
        ''tabSize'' = Some (JNum 8)
   \<and> sysReads (snd (snd (makeFormatCodeSettings [CHR 0x0A] json5Parse_examples
          (no_options\<lparr>tspTsFormat := Some ''ts-format.json''\<rparr>)
          (\<lparr>formatOverrides = Some JNull\<rparr>,
           \<lparr>disk = [''ts-format.json'' \<mapsto> ''{tabSize: 8}''], sysReads = [''ts-format.json'']\<rparr>))))
        = [''ts-format.json'', ''ts-format.json'']"
proof -
  let ?o = "no_options\<lparr>tspTsFormat := Some ''ts-format.json''\<rparr>"
  have a: "makeFormatCodeSettings [CHR 0x0A] json5Parse_examples ?o
       (new_parser, sys_with_files [(''ts-format.json'', ''null'')])
     = (Inr (caller_settings [CHR 0x0A] ?o),
        \<lparr>formatOverrides = Some JNull\<rparr>,
        \<lparr>disk = [''ts-format.json'' \<mapsto> ''null''], sysReads = [''ts-format.json'']\<rparr>)"
    by (simp add: makeFormatCodeSettings_def no_options_def new_parser_def sys_with_files_def
          fs_readFileSync_def json5Parse_examples_def merge_def)
  have b: "get_prop (caller_settings [CHR 0x0A] ?o) ''tabSize'' = Some (JNum 1)"
    by (rule caller_settings_default_tabSize) (simp_all add: no_options_def)
  have c: "makeFormatCodeSettings [CHR 0x0A] json5Parse_examples ?o
          (\<lparr>formatOverrides = Some JNull\<rparr>,
           \<lparr>disk = [''ts-format.json'' \<mapsto> ''{tabSize: 8}''], sysReads = [''ts-format.json'']\<rparr>)
     = (Inr (merge (caller_settings [CHR 0x0A] ?o) (Some (JObj [(''tabSize'', JNum 8)]))),
        \<lparr>formatOverrides = Some (JObj [(''tabSize'', JNum 8)])\<rparr>,
        \<lparr>disk = [''ts-format.json'' \<mapsto> ''{tabSize: 8}''],
          sysReads = [''ts-format.json'', ''ts-format.json'']\<rparr>)"
    by (simp add: makeFormatCodeSettings_def no_options_def
          fs_readFileSync_def json5Parse_examples_def)
  show ?thesis
    unfolding a c using b by (simp add: returned_prop_def merge_def get_set_prop)
qed

text \<open>
  Claim C9, as the code has it. Let the first call on an instance without override
  settings supply the path \<open>P1\<close> and leave truthy override settings in the instance.
  Then these are the parsed contents of \<open>P1\<close>, and a later call that supplies any
  path \<open>P2\<close> returns its own settings merged with those contents of \<open>P1\<close>, leaving
  the instance and the file system (and its log of reads) as they were.
\<close>

theorem C9_later_call_merges_first_override:
  assumes "\<not> truthy_opt (formatOverrides this)"
    and "tspTsFormat opts1 = Some P1" and "P1 \<noteq> []"
    and "makeFormatCodeSettings EOL parse opts1 (this, s) = (Inr fmt1, this1, s1)"
    and "truthy_opt (formatOverrides this1)"
    and "tspTsFormat opts2 = Some P2" and "P2 \<noteq> []"
  shows "\<exists>txt v. disk s P1 = Some txt \<and> parse txt = Inr v \<and> formatOverrides this1 = Some v
           \<and> makeFormatCodeSettings EOL parse opts2 (this1, s2)
               = (Inr (merge (caller_settings EOL opts2) (Some v)), this1, s2)"
proof -
  have p1: "truthy_text (tspTsFormat opts1)" using assms(2,3) by simp
  have p2: "truthy_text (tspTsFormat opts2)" using assms(6,7) by simp
  from makeFormatCodeSettings_load [OF p1 assms(1) assms(4)]
  obtain path content v where l: "tspTsFormat opts1 = Some path" "disk s path = Some content"
      "parse content = Inr v" "this1 = this\<lparr>formatOverrides := Some v\<rparr>"
    by blast
  have path: "path = P1" using l(1) assms(2) by simp
  have f: "formatOverrides this1 = Some v" using l(4) by simp
  have "makeFormatCodeSettings EOL parse opts2 (this1, s2)
          = (Inr (merge (caller_settings EOL opts2) (Some v)), this1, s2)"
    using makeFormatCodeSettings_cached [OF p2 assms(5), of EOL parse s2] f by simp
  then show ?thesis using l(2,3) path f by blast
qed

theorem C9_later_call_merges_first_override_witness:
  "makeFormatCodeSettings [CHR 0x0A] json5Parse_examples
       (no_options\<lparr>tspTsFormat := Some ''b.json''\<rparr>)
       (\<lparr>formatOverrides = Some (JObj [(''tabSize'', JNum 8)])\<rparr>,
        \<lparr>disk = [''a.json'' \<mapsto> ''{tabSize: 8}'', ''b.json'' \<mapsto> ''null''],
          sysReads = [''a.json'']\<rparr>)
     = (Inr (merge (caller_settings [CHR 0x0A] (no_options\<lparr>tspTsFormat := Some ''b.json''\<rparr>))
               (Some (JObj [(''tabSize'', JNum 8)]))),
        \<lparr>formatOverrides = Some (JObj [(''tabSize'', JNum 8)])\<rparr>,
        \<lparr>disk = [''a.json'' \<mapsto> ''{tabSize: 8}'', ''b.json'' \<mapsto> ''null''],
          sysReads = [''a.json'']\<rparr>)"
proof -
  let ?o1 = "no_options\<lparr>tspTsFormat := Some ''a.json''\<rparr>"
  let ?o2 = "no_options\<lparr>tspTsFormat := Some ''b.json''\<rparr>"
  let ?v = "JObj [(''tabSize'', JNum 8)]"
  let ?s1 = "\<lparr>disk = [''a.json'' \<mapsto> ''{tabSize: 8}'', ''b.json'' \<mapsto> ''null''],
          sysReads = [''a.json'']\<rparr>"
  have first: "makeFormatCodeSettings [CHR 0x0A] json5Parse_examples ?o1
                 (new_parser, \<lparr>disk = [''a.json'' \<mapsto> ''{tabSize: 8}'', ''b.json'' \<mapsto> ''null''],
                     sysReads = []\<rparr>)
     = (Inr (merge (caller_settings [CHR 0x0A] ?o1) (Some ?v)), \<lparr>formatOverrides = Some ?v\<rparr>, ?s1)"
    by (simp add: makeFormatCodeSettings_def no_options_def new_parser_def
          fs_readFileSync_def json5Parse_examples_def)
  have a1: "\<not> truthy_opt (formatOverrides new_parser)" by (simp add: new_parser_def)
  have a2: "tspTsFormat ?o1 = Some ''a.json''" by simp
  have a3: "''a.json'' \<noteq> []" by simp
  have a5: "truthy_opt (formatOverrides \<lparr>formatOverrides = Some ?v\<rparr>)" by simp
  have a6: "tspTsFormat ?o2 = Some ''b.json''" by simp
  have a7: "''b.json'' \<noteq> []" by simp
  show ?thesis
    using C9_later_call_merges_first_override [OF a1 a2 a3 first a5 a6 a7, of ?s1]
    by (auto simp: json5Parse_examples_def)
qed

text \<open>
  The claim as stated fails when \<open>P1\<close> parses to a falsy value: the later call reads
  \<open>P2\<close> and merges the contents of \<open>P2\<close>.
\<close>

theorem C9_falsy_override_counterexample:
  "makeFormatCodeSettings [CHR 0x0A] json5Parse_examples
       (no_options\<lparr>tspTsFormat := Some ''a.json''\<rparr>)
       (new_parser, sys_with_files [(''a.json'', ''null''), (''b.json'', ''{tabSize: 8}'')])
     = (Inr (caller_settings [CHR 0x0A] (no_options\<lparr>tspTsFormat := Some ''a.json''\<rparr>)),
        \<lparr>formatOverrides = Some JNull\<rparr>,
        \<lparr>disk = map_of [(''a.json'', ''null''), (''b.json'', ''{tabSize: 8}'')],
          sysReads = [''a.json'']\<rparr>)
   \<and> makeFormatCodeSettings [CHR 0x0A] json5Parse_examples
       (no_options\<lparr>tspTsFormat := Some ''b.json''\<rparr>)
       (\<lparr>formatOverrides = Some JNull\<rparr>,
        \<lparr>disk = map_of [(''a.json'', ''null''), (''b.json'', ''{tabSize: 8}'')],
          sysReads = [''a.json'']\<rparr>)
     = (Inr (merge (caller_settings [CHR 0x0A] (no_options\<lparr>tspTsFormat := Some ''b.json''\<rparr>))
               (Some (JObj [(''tabSize'', JNum 8)]))),
        \<lparr>formatOverrides = Some (JObj [(''tabSize'', JNum 8)])\<rparr>,
        \<lparr>disk = map_of [(''a.json'', ''null''), (''b.json'', ''{tabSize: 8}'')],
          sysReads = [''b.json'', ''a.json'']\<rparr>)"
  by (simp add: makeFormatCodeSettings_def no_options_def new_parser_def sys_with_files_def
        fs_readFileSync_def json5Parse_examples_def merge_def)

section \<open>Properties of printing\<close>

lemma tsPrintSourceFile_tree:
  "fst (snd (tsPrintSourceFile printNode sf opts ts))
     = (case resolve_singleQuote (singleQuote opts) of Some q \<Rightarrow> visitNode q sf | None \<Rightarrow> sf)"
  by (simp add: tsPrintSourceFile_def try_finally_def Let_def split: prod.splits)

text \<open>
  Claim C5. Whatever the printer does, and whether it returns or throws,
  \<^verbatim>\<open>ts.getLiteralText\<close> is after the call the function it was before the call; the
  printer ran with the wrapper installed, on the tree as tagged; and the call's outcome is
  the printer's outcome, so an error thrown by the printer reaches the caller as it is.
\<close>

theorem C5_hook_restored:
  "getLiteralText (snd (snd (tsPrintSourceFile printNode sf opts ts))) = getLiteralText ts
   \<and> fst (tsPrintSourceFile printNode sf opts ts)
       = fst (printNode (ts\<lparr>getLiteralText := LiteralTextWrapper (getLiteralText ts)\<rparr>)
               (fst (snd (tsPrintSourceFile printNode sf opts ts))))
   \<and> (fst (printNode (ts\<lparr>getLiteralText := LiteralTextWrapper (getLiteralText ts)\<rparr>)
               (fst (snd (tsPrintSourceFile printNode sf opts ts)))) = Inl e
        \<longrightarrow> fst (tsPrintSourceFile printNode sf opts ts) = Inl e)"
  by (simp add: tsPrintSourceFile_def try_finally_def Let_def split: prod.splits)

text \<open>
  A printer that throws, after replacing the hook itself: the error is passed on and the
  hook is the prior function again.
\<close>

theorem C5_hook_restored_witness:
  "getLiteralText (snd (snd (tsPrintSourceFile
       (\<lambda>m n. (Inl (PrintError 7), m\<lparr>getLiteralText := PriorLiteralText 99\<rparr>))
       (Node StringLiteral None []) (no_options\<lparr>singleQuote := Some (JBool True)\<rparr>)
       \<lparr>getLiteralText = PriorLiteralText 0\<rparr>))) = PriorLiteralText 0
   \<and> fst (tsPrintSourceFile
       (\<lambda>m n. (Inl (PrintError 7), m\<lparr>getLiteralText := PriorLiteralText 99\<rparr>))
       (Node StringLiteral None []) (no_options\<lparr>singleQuote := Some (JBool True)\<rparr>)
       \<lparr>getLiteralText = PriorLiteralText 0\<rparr>) = Inl (PrintError 7)"
  using C5_hook_restored [of "\<lambda>m n. (Inl (PrintError 7), m\<lparr>getLiteralText := PriorLiteralText 99\<rparr>)"
          "Node StringLiteral None []" "no_options\<lparr>singleQuote := Some (JBool True)\<rparr>"
          "\<lparr>getLiteralText = PriorLiteralText 0\<rparr>" "PrintError 7"]
  by simp

text \<open>
  Claim C8. A preference that is the string \<open>"no"\<close>, \<open>"false"\<close> or \<open>"null"\<close> in
  any letter case, or \<^verbatim>\<open>false\<close>, \<^verbatim>\<open>0\<close>, \<^verbatim>\<open>'0'\<close> or \<^verbatim>\<open>null\<close>,
  resolves to \<^verbatim>\<open>false\<close>; \<^verbatim>\<open>true\<close> resolves to \<^verbatim>\<open>true\<close>; an absent
  preference resolves to \<^verbatim>\<open>undefined\<close>. With a resolved flag \<open>q\<close> the tree is
  tagged by \<^const>\<open>visitNode\<close> with \<open>q\<close>; with an absent preference the tree is left
  as it was, so no string literal is tagged.
\<close>

theorem C8_singleQuote_resolution:
  "(toLowerCase str = ''no'' \<or> toLowerCase str = ''false'' \<or> toLowerCase str = ''null''
      \<longrightarrow> resolve_singleQuote (Some (JStr str)) = Some False)
   \<and> resolve_singleQuote (Some (JBool False)) = Some False
   \<and> resolve_singleQuote (Some (JNum 0)) = Some False
   \<and> resolve_singleQuote (Some (JStr ''0'')) = Some False
   \<and> resolve_singleQuote (Some JNull) = Some False
   \<and> resolve_singleQuote (Some (JBool True)) = Some True
   \<and> resolve_singleQuote None = None
   \<and> (resolve_singleQuote (singleQuote opts) = Some q
        \<longrightarrow> fst (snd (tsPrintSourceFile printNode sf opts ts)) = visitNode q sf)
   \<and> (singleQuote opts = None
        \<longrightarrow> fst (snd (tsPrintSourceFile printNode sf opts ts)) = sf)"
  by (auto simp: resolve_singleQuote_def tsPrintSourceFile_tree Let_def)

theorem C8_singleQuote_resolution_witness:
  "resolve_singleQuote (Some (JStr ''No'')) = Some False
   \<and> fst (snd (tsPrintSourceFile (\<lambda>m n. (Inr ''x'', m))
         (Node (OtherKind 0) None [Node StringLiteral None []])
         (no_options\<lparr>singleQuote := Some (JStr ''No'')\<rparr>) \<lparr>getLiteralText = PriorLiteralText 0\<rparr>))
       = Node (OtherKind 0) None [Node StringLiteral (Some False) []]
   \<and> fst (snd (tsPrintSourceFile (\<lambda>m n. (Inr ''x'', m))
         (Node (OtherKind 0) None [Node StringLiteral None []])
         no_options \<lparr>getLiteralText = PriorLiteralText 0\<rparr>))
       = Node (OtherKind 0) None [Node StringLiteral None []]"
proof -
  let ?p = "\<lambda>(m :: tsModule) (n :: node). (Inr ''x'' :: error + string, m)"
  let ?sf = "Node (OtherKind 0) None [Node StringLiteral None []]"
  let ?ts = "\<lparr>getLiteralText = PriorLiteralText 0\<rparr>"
  have l: "toLowerCase ''No'' = ''no''"
    by (simp add: toLowerCase_def toLowerCase_char_def)
  note a = C8_singleQuote_resolution
             [of "''No''" "no_options\<lparr>singleQuote := Some (JStr ''No'')\<rparr>" False ?p ?sf ?ts]
  note b = C8_singleQuote_resolution [of "''No''" no_options False ?p ?sf ?ts]
  have r: "resolve_singleQuote (Some (JStr ''No'')) = Some False"
    using a l by simp
  have t: "fst (snd (tsPrintSourceFile ?p ?sf
             (no_options\<lparr>singleQuote := Some (JStr ''No'')\<rparr>) ?ts)) = visitNode False ?sf"
    using a r by simp
  have u: "fst (snd (tsPrintSourceFile ?p ?sf no_options ?ts)) = ?sf"
    using b by (simp add: no_options_def)
  show ?thesis using r t u by simp
qed

end
